theory Spec2Isabelle
  imports Complex_Main "HOL-Library.AList"
begin

section \<open>JavaScript values the coordinator relies on\<close>

text \<open>
  The coordinator is the class \<open>AgentManager\<close> with the agent classes of
  \<open>src/unnamed/part_002\<close> (the later of the two copies of the module; the older
  copy is \<open>src/frontend/js/agents.js\<close>).  Three behaviours of JavaScript decide
  claims about it and are therefore written out: reading a property of a primitive
  string, truthiness, and indexing an array out of range.
\<close>

datatype jsval = JUndefined | JNum int | JStr string

definition js_string_prop :: "string \<Rightarrow> string \<Rightarrow> jsval" where
  \<comment> \<open>\<open>s.p\<close> for a primitive string \<open>s\<close>: \<open>length\<close> is its only named own property,
      and \<open>String.prototype\<close> has neither \<open>status\<close> nor \<open>progress\<close>.\<close>
  "js_string_prop s p = (if p = ''length'' then JNum (int (length s)) else JUndefined)"

definition js_truthy :: "jsval \<Rightarrow> bool" where
  "js_truthy v = (case v of JUndefined \<Rightarrow> False | JNum n \<Rightarrow> n \<noteq> 0 | JStr s \<Rightarrow> s \<noteq> [])"

definition js_or :: "jsval \<Rightarrow> jsval \<Rightarrow> jsval" where
  \<comment> \<open>\<open>a || b\<close>\<close>
  "js_or a b = (if js_truthy a then a else b)"

definition js_str :: "string option \<Rightarrow> string" where
  \<comment> \<open>a field that may be missing, interpolated into a template literal\<close>
  "js_str v = (case v of None \<Rightarrow> ''undefined'' | Some s \<Rightarrow> s)"

definition js_index :: "'a list \<Rightarrow> int \<Rightarrow> 'a option" where
  \<comment> \<open>\<open>xs[i]\<close>: \<open>undefined\<close> outside the array\<close>
  "js_index xs i = (if 0 \<le> i \<and> nat i < length xs then Some (xs ! nat i) else None)"

definition digit_char :: "nat \<Rightarrow> char" where
  "digit_char d = char_of (48 + d)"

fun string_of_nat :: "nat \<Rightarrow> string" where
  "string_of_nat n =
     (if n < 10 then [digit_char n] else string_of_nat (n div 10) @ [digit_char (n mod 10)])"

declare string_of_nat.simps [simp del]

section \<open>Tasks and agents\<close>

record task =
  task_id :: string
  task_name :: "string option"
  task_type :: string
  task_priority :: "string option"
  task_parameters :: "(string \<times> string) list option"
  input_file :: "string option"
  dataset_type :: "string option"
  output_file :: "string option"
  task_status :: "string option"
  task_progress :: jsval

record log_entry =
  timestamp :: nat
  message :: string
  level :: string

datatype agent_kind = KBase | KData | KAnalysis | KVisualization | KReport

text \<open>
  \<open>executeTask\<close> is an \<open>async\<close> method: it runs to its first \<open>await\<close> inside the call
  and is resumed later from the event loop.  \<open>agent_pc\<close> is the suspended
  continuation, with the closure variable \<open>task\<close>: waiting for the promise of
  \<open>performTask\<close> that is already resolved or rejected, or waiting for the timer of
  \<open>delay\<close> inside the progress loop with loop variable \<open>i\<close>.
\<close>

datatype agent_pc = Idle | Resolved task | Rejected task string | InLoop task nat

record agent =
  kind :: agent_kind
  name :: string
  capabilities :: "string list"
  status :: string
  currentTask :: "task option"
  progress :: nat
  logs :: "log_entry list"
  pc :: agent_pc

definition BaseAgent :: "string \<Rightarrow> string list \<Rightarrow> agent" where
  "BaseAgent nm caps =
     \<lparr>kind = KBase, name = nm, capabilities = caps, status = ''offline'',
      currentTask = None, progress = 0, logs = [], pc = Idle\<rparr>"

definition DataAgent :: agent where
  "DataAgent =
     (BaseAgent ''DataAgent'' [''data_processing'', ''data_cleaning'', ''data_validation''])
       \<lparr>kind := KData, status := ''online''\<rparr>"

definition AnalysisAgent :: agent where
  "AnalysisAgent =
     (BaseAgent ''AnalysisAgent'' [''analysis'', ''statistical_analysis'', ''trend_analysis''])
       \<lparr>kind := KAnalysis, status := ''online''\<rparr>"

definition VisualizationAgent :: agent where
  "VisualizationAgent =
     (BaseAgent ''VisualizationAgent'' [''visualization'', ''chart_generation'', ''dashboard_update''])
       \<lparr>kind := KVisualization, status := ''online''\<rparr>"

definition ReportAgent :: agent where
  "ReportAgent =
     (BaseAgent ''ReportAgent'' [''report_generation'', ''document_creation'', ''export''])
       \<lparr>kind := KReport, status := ''offline''\<rparr>"

definition getStatus :: "agent \<Rightarrow> string" where
  "getStatus a = status a"

definition canHandleTask :: "agent \<Rightarrow> task \<Rightarrow> bool" where
  \<comment> \<open>\<open>this.capabilities.includes(task.type) && this.status === 'online'\<close>\<close>
  "canHandleTask a t = (List.member (capabilities a) (task_type t) \<and> status a = ''online'')"

definition log_agent :: "nat \<Rightarrow> string \<Rightarrow> string \<Rightarrow> agent \<Rightarrow> agent" where
  \<comment> \<open>\<open>BaseAgent.log\<close>; the time stamp is the clock reading \<open>now\<close>, and the redraw of
      the log panel touches the document only\<close>
  "log_agent now msg lvl a = a\<lparr>logs := logs a @ [\<lparr>timestamp = now, message = msg, level = lvl\<rparr>]\<rparr>"

section \<open>Task execution by an agent\<close>

text \<open>
  The four agent classes differ in the task type that starts their progress loop, in
  the loop increment and in the message logged at each step; \<open>BaseAgent.performTask\<close>
  throws.  The loop is \<open>for (let i = 0; i <= 100; i += step) { this.progress = i;
  await this.delay(ms); this.log(...) }\<close>.
\<close>

definition step_increment :: "agent_kind \<Rightarrow> nat" where
  "step_increment k = (case k of KBase \<Rightarrow> 0 | KData \<Rightarrow> 20 | KAnalysis \<Rightarrow> 15
     | KVisualization \<Rightarrow> 20 | KReport \<Rightarrow> 25)"

definition step_message :: "agent_kind \<Rightarrow> task \<Rightarrow> nat \<Rightarrow> string" where
  "step_message k t i = (case k of
       KBase \<Rightarrow> []
     | KData \<Rightarrow> ''Processing '' @ js_str (dataset_type t) @ '' data... '' @ string_of_nat i @ ''%''
     | KAnalysis \<Rightarrow> ''Analyzing data... '' @ string_of_nat i @ ''%''
     | KVisualization \<Rightarrow> ''Creating visualizations... '' @ string_of_nat i @ ''%''
     | KReport \<Rightarrow> ''Generating report... '' @ string_of_nat i @ ''%'')"

definition loop_head :: "task \<Rightarrow> nat \<Rightarrow> agent \<Rightarrow> agent" where
  \<comment> \<open>the loop test with counter \<open>i\<close>: inside, \<open>progress = i\<close> and the agent waits for
      the timer; past 100 the loop is left and the promise of \<open>performTask\<close> resolves\<close>
  "loop_head t i a = (if i \<le> 100 then a\<lparr>progress := i, pc := InLoop t i\<rparr> else a\<lparr>pc := Resolved t\<rparr>)"

definition processData :: "nat \<Rightarrow> task \<Rightarrow> agent \<Rightarrow> agent" where
  \<comment> \<open>\<open>DataAgent.processData\<close> up to its first \<open>await\<close>\<close>
  "processData now t a =
     loop_head t 0
       ((log_agent now (''Processing data from '' @ js_str (input_file t)) ''info'' a)
          \<lparr>status := ''processing''\<rparr>)"

definition performTask :: "nat \<Rightarrow> task \<Rightarrow> agent \<Rightarrow> agent" where
  \<comment> \<open>\<open>performTask\<close> of the agent's class, up to its first \<open>await\<close>\<close>
  "performTask now t a = (case kind a of
       KBase \<Rightarrow> a\<lparr>pc := Rejected t ''performTask not implemented''\<rparr>
     | KData \<Rightarrow> if task_type t = ''data_processing'' then processData now t a else a\<lparr>pc := Resolved t\<rparr>
     | KAnalysis \<Rightarrow> if task_type t = ''analysis'' then loop_head t 0 a else a\<lparr>pc := Resolved t\<rparr>
     | KVisualization \<Rightarrow> if task_type t = ''visualization'' then loop_head t 0 a else a\<lparr>pc := Resolved t\<rparr>
     | KReport \<Rightarrow> if task_type t = ''report_generation'' then loop_head t 0 a else a\<lparr>pc := Resolved t\<rparr>)"

definition executeTask :: "nat \<Rightarrow> task \<Rightarrow> agent \<Rightarrow> agent" where
  \<comment> \<open>\<open>BaseAgent.executeTask\<close> up to \<open>await this.performTask(task)\<close>\<close>
  "executeTask now t a =
     performTask now t
       (log_agent now (''Starting task: '' @ js_str (task_name t)) ''info''
          (a\<lparr>status := ''busy'', currentTask := Some t, progress := 0\<rparr>))"

definition executeTask_completed :: "nat \<Rightarrow> task \<Rightarrow> agent \<Rightarrow> agent" where
  \<comment> \<open>the rest of the \<open>try\<close> block and the statement after it\<close>
  "executeTask_completed now t a =
     (log_agent now (''Completed task: '' @ js_str (task_name t)) ''info'' a)
       \<lparr>status := ''online'', progress := 100, currentTask := None, pc := Idle\<rparr>"

definition executeTask_failed :: "nat \<Rightarrow> task \<Rightarrow> string \<Rightarrow> agent \<Rightarrow> agent" where
  \<comment> \<open>the \<open>catch\<close> block and the statement after it\<close>
  "executeTask_failed now t msg a =
     (log_agent now (''Failed task: '' @ js_str (task_name t) @ '' - '' @ msg) ''error'' a)
       \<lparr>status := ''online'', progress := 0, currentTask := None, pc := Idle\<rparr>"

definition after_loop :: "nat \<Rightarrow> task \<Rightarrow> agent \<Rightarrow> agent" where
  \<comment> \<open>what the class does between its loop and its return: only \<open>processData\<close> does
      something.  Its own \<open>catch\<close> (status \<open>error\<close>) has no statement that throws in
      front of it; \<open>step_throws\<close> below says what it does if one did.\<close>
  "after_loop now t a = (case kind a of
       KData \<Rightarrow> (log_agent now (''Data processing complete. Output saved to '' @ js_str (output_file t))
                   ''info'' a)\<lparr>status := ''online''\<rparr>
     | _ \<Rightarrow> a)"

definition resume :: "nat \<Rightarrow> agent \<Rightarrow> agent" where
  \<comment> \<open>one resumption of the suspended \<open>executeTask\<close> from the event loop\<close>
  "resume now a = (case pc a of
       Idle \<Rightarrow> a
     | Resolved t \<Rightarrow> executeTask_completed now t a
     | Rejected t msg \<Rightarrow> executeTask_failed now t msg a
     | InLoop t i \<Rightarrow>
         (let a1 = log_agent now (step_message (kind a) t i) ''info'' a;
              i' = i + step_increment (kind a)
          in if i' \<le> 100 then a1\<lparr>progress := i', pc := InLoop t i'\<rparr>
             else executeTask_completed now t (after_loop now t a1)))"


datatype upload_outcome = UploadSuccess string | UploadError string string | UploadThrow string

definition handleFileUpload :: "nat \<Rightarrow> upload_outcome \<Rightarrow> agent \<Rightarrow> agent" where
  \<comment> \<open>\<open>DataAgent.handleFileUpload\<close> for a \<open>.csv\<close> file, by the outcome of the request\<close>
  "handleFileUpload now out a = (case out of
       UploadSuccess fname \<Rightarrow>
         (log_agent now (''Successfully processed '' @ fname) ''info'' a)\<lparr>status := ''processing''\<rparr>
     | UploadError fname msg \<Rightarrow> log_agent now (''Error processing '' @ fname @ '': '' @ msg) ''info'' a
     | UploadThrow msg \<Rightarrow> log_agent now (''Error uploading file: '' @ msg) ''info'' a)"

section \<open>The coordinator\<close>

record task_info =
  agentId :: string
  task :: task
  startTime :: nat

text \<open>
  The two \<open>Map\<close>s and the \<open>agents\<close> object keep insertion order, which the random
  choice among the eligible agents depends on, so they are association lists:
  \<open>Map.set\<close> is \<open>AList.update\<close>, \<open>Map.get\<close> is \<open>map_of\<close>, \<open>Map.delete\<close> is
  \<open>AList.delete\<close>.  \<open>watchers\<close> are the live \<open>setInterval\<close> timers of
  \<open>trackTaskProgress\<close>, each with its closure variables \<open>taskId\<close> and \<open>agentId\<close>.
  \<open>detached\<close> collects the task objects the watcher has deleted from \<open>activeTasks\<close>
  and then written to; the source keeps them only in the closure variable \<open>taskInfo\<close>.
  Writes to the document (\<open>updateTaskQueueUI\<close>, \<open>updateAgentUI\<close>, \<open>showNotification\<close>)
  are not part of the state.  Tasks are stored by value: the copy in \<open>currentTask\<close>
  does not follow the watcher's write to \<open>task.progress\<close>.
\<close>

record manager =
  agents :: "(string \<times> agent) list"
  taskQueue :: "task list"
  activeTasks :: "(string \<times> task_info) list"
  agentStatus :: "(string \<times> string) list"
  watchers :: "(string \<times> string) list"
  detached :: "task list"

definition new_AgentManager :: manager where
  \<comment> \<open>the constructor and \<open>init\<close> up to, not including, \<open>initializeTaskQueue\<close>\<close>
  "new_AgentManager =
     \<lparr>agents = [(''data'', DataAgent), (''analysis'', AnalysisAgent),
                (''visualization'', VisualizationAgent), (''report'', ReportAgent)],
      taskQueue = [], activeTasks = [],
      agentStatus = [(''data'', ''offline''), (''analysis'', ''offline''),
                     (''visualization'', ''offline''), (''report'', ''offline'')],
      watchers = [], detached = []\<rparr>"

definition updateAgentStatuses :: "manager \<Rightarrow> manager" where
  "updateAgentStatuses s =
     s\<lparr>agentStatus := fold (\<lambda>(aid, a). AList.update aid (getStatus a)) (agents s) (agentStatus s)\<rparr>"

definition availableAgents :: "manager \<Rightarrow> string list" where
  "availableAgents s = map fst (filter (\<lambda>(_, st). st = ''online'') (agentStatus s))"

definition selectBestAgent :: "task \<Rightarrow> string list \<Rightarrow> real \<Rightarrow> string option" where
  \<comment> \<open>\<open>availableAgents[Math.floor(Math.random() * availableAgents.length)]\<close>, with
      \<open>r\<close> the value \<open>Math.random()\<close> returns\<close>
  "selectBestAgent t avail r = js_index avail \<lfloor>r * real (length avail)\<rfloor>"

definition trackTaskProgress :: "string \<Rightarrow> string \<Rightarrow> manager \<Rightarrow> manager" where
  \<comment> \<open>the call itself: it only starts the timer, and only for a known agent\<close>
  "trackTaskProgress tid aid s = (case map_of (agents s) aid of
       None \<Rightarrow> s
     | Some _ \<Rightarrow> s\<lparr>watchers := watchers s @ [(tid, aid)]\<rparr>)"

definition assignTask :: "string \<Rightarrow> task \<Rightarrow> nat \<Rightarrow> manager \<Rightarrow> manager" where
  "assignTask aid t now s = (case map_of (agents s) aid of
       None \<Rightarrow> s
     | Some a \<Rightarrow>
         if canHandleTask a t then
           trackTaskProgress (task_id t) aid
             (s\<lparr>activeTasks := AList.update (task_id t) \<lparr>agentId = aid, task = t, startTime = now\<rparr> (activeTasks s),
                agents := AList.update aid (executeTask now t a) (agents s)\<rparr>)
         else s)"

definition processTaskQueue :: "real \<Rightarrow> nat \<Rightarrow> manager \<Rightarrow> manager" where
  "processTaskQueue r now s = (case taskQueue s of
       [] \<Rightarrow> s
     | t # rest \<Rightarrow>
         if availableAgents s = [] then s
         else (let s1 = s\<lparr>taskQueue := rest\<rparr>
               in case selectBestAgent t (availableAgents s) r of
                    None \<Rightarrow> s1
                  | Some aid \<Rightarrow> if aid = [] then s1 else assignTask aid t now s1))"

definition generateTaskId :: "nat \<Rightarrow> string \<Rightarrow> string" where
  \<comment> \<open>\<open>'task_' + Date.now() + '_' + Math.random().toString(36).substr(2, 9)\<close>, with
      \<open>now\<close> the clock reading and \<open>rnd\<close> the base-36 text of the random number\<close>
  "generateTaskId now rnd = ''task_'' @ string_of_nat now @ ''_'' @ take 9 (drop 2 rnd)"

definition addTask :: "task \<Rightarrow> nat \<Rightarrow> string \<Rightarrow> real \<Rightarrow> manager \<Rightarrow> manager" where
  "addTask t now rnd r s =
     processTaskQueue r now (s\<lparr>taskQueue := taskQueue s @ [t\<lparr>task_id := generateTaskId now rnd\<rparr>]\<rparr>)"

definition addTask_frontend :: "task \<Rightarrow> nat \<Rightarrow> string \<Rightarrow> manager \<Rightarrow> manager" where
  \<comment> \<open>\<open>addTask\<close> of the older copy, \<open>src/frontend/js/agents.js\<close>: no dispatch\<close>
  "addTask_frontend t now rnd s = s\<lparr>taskQueue := taskQueue s @ [t\<lparr>task_id := generateTaskId now rnd\<rparr>]\<rparr>"

definition monitoring_tick :: "real \<Rightarrow> nat \<Rightarrow> manager \<Rightarrow> manager" where
  \<comment> \<open>the callback of \<open>startAgentMonitoring\<close>, every 2000 ms\<close>
  "monitoring_tick r now s = processTaskQueue r now (updateAgentStatuses s)"

definition agent_resume :: "string \<Rightarrow> nat \<Rightarrow> manager \<Rightarrow> manager" where
  \<comment> \<open>the event loop resumes the suspended \<open>executeTask\<close> of agent \<open>aid\<close>\<close>
  "agent_resume aid now s = (case map_of (agents s) aid of
       None \<Rightarrow> s
     | Some a \<Rightarrow> s\<lparr>agents := AList.update aid (resume now a) (agents s)\<rparr>)"


definition clearInterval :: "string \<Rightarrow> string \<Rightarrow> manager \<Rightarrow> manager" where
  "clearInterval tid aid s = s\<lparr>watchers := removeAll (tid, aid) (watchers s)\<rparr>"

definition watcher_tick :: "string \<Rightarrow> string \<Rightarrow> manager \<Rightarrow> manager" where
  \<comment> \<open>the callback of \<open>trackTaskProgress\<close>, every 1000 ms.  \<open>statusInfo\<close> is what
      \<open>agentStatus\<close> holds: the status string written by \<open>init\<close> and
      \<open>updateAgentStatuses\<close>.\<close>
  "watcher_tick tid aid s =
     (case (map_of (agentStatus s) aid, map_of (activeTasks s) tid) of
        (Some statusInfo, Some taskInfo) \<Rightarrow>
          if statusInfo = [] then clearInterval tid aid s
          else
            (let t1 = (task taskInfo)\<lparr>task_progress := js_or (js_string_prop statusInfo ''progress'') (JNum 0)\<rparr>;
                 s1 = s\<lparr>activeTasks := AList.update tid (taskInfo\<lparr>task := t1\<rparr>) (activeTasks s)\<rparr>
             in if js_string_prop statusInfo ''status'' = JStr ''idle''
                   \<or> js_string_prop statusInfo ''progress'' = JNum 100
                then (clearInterval tid aid s1)
                       \<lparr>activeTasks := AList.delete tid (activeTasks s1),
                        detached := detached s1 @ [t1\<lparr>task_status := Some ''Completed''\<rparr>]\<rparr>
                else s1)
      | _ \<Rightarrow> clearInterval tid aid s)"

section \<open>Events and reachable states\<close>

text \<open>
  Everything that happens to the coordinator is a callback run to completion: a call of
  \<open>addTask\<close> (from \<open>initializeTaskQueue\<close>, \<open>startAgentWorkflow\<close> or \<open>uploadCSV\<close>),
  the monitoring timer, the resumption of a suspended \<open>executeTask\<close>, a watcher
  timer, \<open>refreshDashboard\<close>, and the end of a file upload on the data agent.  The
  clock reading and the random numbers come with the event.
\<close>

datatype event =
    EvAddTask task nat string real
  | EvTick real nat
  | EvResume string nat
  | EvWatch string string
  | EvRefresh
  | EvUpload nat upload_outcome

fun fire :: "event \<Rightarrow> manager \<Rightarrow> manager" where
  "fire (EvAddTask t now rnd r) s = addTask t now rnd r s"
| "fire (EvTick r now) s = monitoring_tick r now s"
| "fire (EvResume aid now) s = agent_resume aid now s"
| "fire (EvWatch tid aid) s = (if (tid, aid) \<in> set (watchers s) then watcher_tick tid aid s else s)"
| "fire EvRefresh s = updateAgentStatuses s"
| "fire (EvUpload now out) s = (case map_of (agents s) ''data'' of
       None \<Rightarrow> s
     | Some a \<Rightarrow> s\<lparr>agents := AList.update ''data'' (handleFileUpload now out a) (agents s)\<rparr>)"

definition run :: "event list \<Rightarrow> manager \<Rightarrow> manager" where
  "run es s = fold fire es s"

definition fresh_id :: "string \<Rightarrow> manager \<Rightarrow> bool" where
  \<comment> \<open>the id is that of no task the coordinator holds\<close>
  "fresh_id i s = (i \<notin> set (map task_id (taskQueue s)) \<and> i \<notin> set (map fst (activeTasks s)))"

fun admissible :: "event \<Rightarrow> manager \<Rightarrow> bool" where
  \<comment> \<open>\<open>generateTaskId\<close> is taken to return an id not in use: the clock and the random
      suffix make a repetition improbable, not impossible\<close>
  "admissible (EvAddTask t now rnd r) s = fresh_id (generateTaskId now rnd) s"
| "admissible _ s = True"

inductive reachable :: "manager \<Rightarrow> bool" where
  init: "reachable new_AgentManager"
| step: "reachable s \<Longrightarrow> admissible e s \<Longrightarrow> reachable (fire e s)"

section \<open>Predicates on coordinator states\<close>

definition ids_disjoint :: "manager \<Rightarrow> bool" where
  \<comment> \<open>pending ids are pairwise different and none is a key of the active map\<close>
  "ids_disjoint s =
     (distinct (map task_id (taskQueue s))
      \<and> task_id ` set (taskQueue s) \<inter> fst ` set (activeTasks s) = {})"

definition registry_inv :: "manager \<Rightarrow> bool" where
  \<comment> \<open>the four agents of the constructor with their capabilities, the report agent
      \<open>offline\<close> and not executing, and no \<open>report_generation\<close> task in the active map\<close>
  "registry_inv s =
     ((\<exists>d an v rp.
         agents s = [(''data'', d), (''analysis'', an), (''visualization'', v), (''report'', rp)]
         \<and> capabilities d = capabilities DataAgent
         \<and> capabilities an = capabilities AnalysisAgent
         \<and> capabilities v = capabilities VisualizationAgent
         \<and> status rp = ''offline'' \<and> pc rp = Idle)
      \<and> (\<forall>(tid, info) \<in> set (activeTasks s). task_type (task info) \<noteq> ''report_generation''))"

definition registry_consistent :: "manager \<Rightarrow> bool" where
  \<comment> \<open>\<open>agentStatus\<close> has exactly the keys of \<open>agents\<close>, each once, as \<open>init\<close> leaves it\<close>
  "registry_consistent s =
     (map fst (agentStatus s) = map fst (agents s) \<and> distinct (map fst (agents s)))"

definition agent_can_handle :: "manager \<Rightarrow> string \<Rightarrow> task \<Rightarrow> bool" where
  \<comment> \<open>the test of \<open>assignTask\<close>: \<open>agent && agent.canHandleTask(task)\<close>\<close>
  "agent_can_handle s aid t = (case map_of (agents s) aid of None \<Rightarrow> False | Some a \<Rightarrow> canHandleTask a t)"

definition only_online :: "manager \<Rightarrow> string \<Rightarrow> bool" where
  \<comment> \<open>no agent other than \<open>aid\<close> has status \<open>online\<close>\<close>
  "only_online s aid = list_all (\<lambda>(aid', a'). aid' = aid \<or> status a' \<noteq> ''online'') (agents s)"

definition online_supporting :: "manager \<Rightarrow> string \<Rightarrow> string list" where
  \<comment> \<open>the agents that are \<open>online\<close> and have the task type among their capabilities\<close>
  "online_supporting s ty =
     map fst (filter (\<lambda>(aid, a). status a = ''online'' \<and> List.member (capabilities a) ty) (agents s))"

definition idle_or_not_online :: "agent \<Rightarrow> bool" where
  "idle_or_not_online a = (pc a = Idle \<or> status a \<noteq> ''online'')"

definition executing_not_online :: "manager \<Rightarrow> bool" where
  \<comment> \<open>an agent with a suspended \<open>executeTask\<close> does not have status \<open>online\<close>\<close>
  "executing_not_online s = list_all (idle_or_not_online \<circ> snd) (agents s)"

fun admissible_run :: "event list \<Rightarrow> manager \<Rightarrow> bool" where
  "admissible_run [] s = True"
| "admissible_run (e # es) s = (admissible e s \<and> admissible_run es (fire e s))"

fun checked_run :: "event list \<Rightarrow> manager \<Rightarrow> manager option" where
  \<comment> \<open>the state a run ends in, if each of its events is admissible where it fires\<close>
  "checked_run [] s = Some s"
| "checked_run (e # es) s = (if admissible e s then checked_run es (fire e s) else None)"

section \<open>Example tasks and runs\<close>

definition new_task :: "string \<Rightarrow> string \<Rightarrow> string \<Rightarrow> task" where
  \<comment> \<open>the object literal \<open>{name, type, priority}\<close> that \<open>initializeTaskQueue\<close> and
      \<open>startAgentWorkflow\<close> pass to \<open>addTask\<close>\<close>
  "new_task nm ty pr =
     \<lparr>task_id = [], task_name = Some nm, task_type = ty, task_priority = Some pr,
      task_parameters = None, input_file = None, dataset_type = None, output_file = None,
      task_status = None, task_progress = JUndefined\<rparr>"

definition upload_task :: "string \<Rightarrow> task" where
  \<comment> \<open>the object literal \<open>uploadCSV\<close> passes to \<open>addTask\<close>\<close>
  "upload_task fname =
     \<lparr>task_id = [], task_name = Some (''Upload: '' @ fname), task_type = ''data_processing'',
      task_priority = None, task_parameters = Some [(''filename'', fname)],
      input_file = None, dataset_type = None, output_file = None,
      task_status = None, task_progress = JUndefined\<rparr>"

definition thesis_task :: task where
  "thesis_task = new_task ''Process Thesis Data'' ''data_processing'' ''high''"

definition visualizations_task :: task where
  "visualizations_task = new_task ''Generate Visualizations'' ''visualization'' ''medium''"

definition report_task :: task where
  "report_task = new_task ''Create Analysis Report'' ''report_generation'' ''low''"

definition analysis_task :: task where
  "analysis_task = new_task ''Perform Statistical Analysis'' ''analysis'' ''high''"

definition dashboard_task :: task where
  "dashboard_task = new_task ''Create Interactive Dashboard'' ''visualization'' ''medium''"

definition initializeTaskQueue :: "event list" where
  \<comment> \<open>the three calls of \<open>addTask\<close> that end the constructor, with a clock reading and
      random numbers\<close>
  "initializeTaskQueue =
     [EvAddTask thesis_task 1000 ''0.k3j2h4g5f6d7'' 0,
      EvAddTask visualizations_task 1000 ''0.p0o9i8u7y6t5'' 0,
      EvAddTask report_task 1000 ''0.r4e3w2q1a0s9'' 0]"

definition constructed :: manager where
  \<comment> \<open>the coordinator as \<open>new AgentManager()\<close> returns it\<close>
  "constructed = run initializeTaskQueue new_AgentManager"

definition one_task_run :: "event list" where
  \<comment> \<open>from the constructor to the end of the first task.  The monitoring timer fires
      at 2000, 4000 and 6000 and draws 0 each time: the first tick starts the
      \<open>data_processing\<close> task on the data agent, the second and the third take the other
      two start-up tasks off the queue for an agent that cannot handle them.  The six
      steps of the data agent end at 2500, \<dots>, 5000; the watcher started at 2000
      fires at 3000, 4000 and 5000.\<close>
  "one_task_run =
     initializeTaskQueue @
     [EvTick 0 2000,
      EvResume ''data'' 2500, EvResume ''data'' 3000, EvWatch ''task_1000_k3j2h4g5f'' ''data'',
      EvResume ''data'' 3500, EvTick 0 4000, EvResume ''data'' 4000,
      EvWatch ''task_1000_k3j2h4g5f'' ''data'',
      EvResume ''data'' 4500, EvResume ''data'' 5000, EvWatch ''task_1000_k3j2h4g5f'' ''data'',
      EvTick 0 6000]"

definition after_one_task :: manager where
  "after_one_task = run one_task_run new_AgentManager"

definition after_second_task :: manager where
  \<comment> \<open>the watcher fires once more, then \<open>uploadCSV\<close> enqueues a task for the data agent\<close>
  "after_second_task =
     run [EvWatch ''task_1000_k3j2h4g5f'' ''data'',
          EvAddTask (upload_task ''data.csv'') 6500 ''0.z9y8x7w6v5u4'' 0] after_one_task"

definition report_at_head :: manager where
  \<comment> \<open>after the constructor and two monitoring ticks the report task heads the queue\<close>
  "report_at_head =
     run (initializeTaskQueue @
          [EvTick 0 2000, EvResume ''data'' 2500, EvResume ''data'' 3000,
           EvResume ''data'' 3500, EvTick 0 4000]) new_AgentManager"

definition three_data_tasks :: manager where
  \<comment> \<open>two uploads right after the constructor: with the start-up task, three
      \<open>data_processing\<close> tasks are pending\<close>
  "three_data_tasks =
     run [EvAddTask (upload_task ''a.csv'') 1200 ''0.z9y8x7w6v5u4'' 0,
          EvAddTask (upload_task ''b.csv'') 1400 ''0.m1n2b3v4c5x6'' 0] constructed"

definition pipeline_task :: task where
  "pipeline_task = new_task ''Initialize Data Pipeline'' ''data_processing'' ''high''"

definition final_report_task :: task where
  "final_report_task = new_task ''Generate Final Report'' ''report_generation'' ''medium''"


definition visualization_running :: manager where
  \<comment> \<open>the constructor, then the first monitoring tick draws the analysis agent for the
      \<open>data_processing\<close> task, which is lost, and the second draws the visualization
      agent for the start-up \<open>visualization\<close> task; its first step is due at 4600\<close>
  "visualization_running =
     run (initializeTaskQueue @ [EvTick (1/2) 2000, EvTick (3/4) 4000]) new_AgentManager"

definition startAgentWorkflow :: "event list" where
  \<comment> \<open>the four calls of \<open>addTask\<close> in \<open>startAgentWorkflow\<close>, at 4100, with the random
      numbers of their dispatches\<close>
  "startAgentWorkflow =
     [EvAddTask pipeline_task 4100 ''0.a1s2d3f4g5h6'' 0,
      EvAddTask analysis_task 4100 ''0.q9w8e7r6t5y4'' (1/2),
      EvAddTask dashboard_task 4100 ''0.z1x2c3v4b5n6'' (1/2),
      EvAddTask final_report_task 4100 ''0.m9n8b7v6c5x4'' 0]"

definition only_data_listed :: manager where
  \<comment> \<open>from \<open>visualization_running\<close>: \<open>startAgentWorkflow\<close> at 4100 starts the analysis
      (its four dispatches take the report task, the pipeline task, the analysis task
      and the dashboard task off the queue, and only the analysis task finds an agent
      that handles it); the steps of the visualization agent end at 4600, 5200, 5800,
      those of the analysis agent at 4900, 5700; the two watchers fire at 5000, 6000 and
      at 5100, 6100; the monitoring tick at 6000 lists the data agent as the only one
      \<open>online\<close> and takes the last task, a report, off the queue\<close>
  "only_data_listed =
     run (startAgentWorkflow @
          [EvResume ''visualization'' 4600, EvResume ''analysis'' 4900,
           EvWatch ''task_1000_p0o9i8u7y'' ''visualization'',
           EvWatch ''task_4100_q9w8e7r6t'' ''analysis'',
           EvResume ''visualization'' 5200, EvResume ''analysis'' 5700,
           EvResume ''visualization'' 5800,
           EvTick 0 6000,
           EvWatch ''task_1000_p0o9i8u7y'' ''visualization'',
           EvWatch ''task_4100_q9w8e7r6t'' ''analysis''])
       visualization_running"

definition first_upload :: manager where
  \<comment> \<open>\<open>uploadCSV\<close> enqueues a \<open>data_processing\<close> task at 6150\<close>
  "first_upload = fire (EvAddTask (upload_task ''a.csv'') 6150 ''0.z9y8x7w6v5u4'' 0) only_data_listed"

definition three_uploads :: manager where
  \<comment> \<open>three uploads, at 6150, 6250 and 6350, before any timer is due\<close>
  "three_uploads =
     run [EvAddTask (upload_task ''a.csv'') 6150 ''0.z9y8x7w6v5u4'' 0,
          EvAddTask (upload_task ''b.csv'') 6250 ''0.m1n2b3v4c5x6'' 0,
          EvAddTask (upload_task ''c.csv'') 6350 ''0.h7j8k9l0p1o2'' 0] only_data_listed"

definition finished_data_agent :: agent where
  \<comment> \<open>the data agent at the end of \<open>one_task_run\<close>: \<open>online\<close> again, progress 100\<close>
  "finished_data_agent =
     \<lparr>kind = KData, name = ''DataAgent'',
      capabilities = [''data_processing'', ''data_cleaning'', ''data_validation''],
      status = ''online'', currentTask = None, progress = 100,
      logs =
        [\<lparr>timestamp = 2000, message = ''Starting task: Process Thesis Data'', level = ''info''\<rparr>,
         \<lparr>timestamp = 2000, message = ''Processing data from undefined'', level = ''info''\<rparr>,
         \<lparr>timestamp = 2500, message = ''Processing undefined data... 0%'', level = ''info''\<rparr>,
         \<lparr>timestamp = 3000, message = ''Processing undefined data... 20%'', level = ''info''\<rparr>,
         \<lparr>timestamp = 3500, message = ''Processing undefined data... 40%'', level = ''info''\<rparr>,
         \<lparr>timestamp = 4000, message = ''Processing undefined data... 60%'', level = ''info''\<rparr>,
         \<lparr>timestamp = 4500, message = ''Processing undefined data... 80%'', level = ''info''\<rparr>,
         \<lparr>timestamp = 5000, message = ''Processing undefined data... 100%'', level = ''info''\<rparr>,
         \<lparr>timestamp = 5000, message = ''Data processing complete. Output saved to undefined'',
            level = ''info''\<rparr>,
         \<lparr>timestamp = 5000, message = ''Completed task: Process Thesis Data'', level = ''info''\<rparr>],
      pc = Idle\<rparr>"

definition finished_state :: manager where
  \<comment> \<open>the state \<open>one_task_run\<close> ends in: \<open>agentStatus\<close> lists the data agent as
      \<open>online\<close>, and the task is in the active map with the progress 0 the watcher wrote\<close>
  "finished_state =
     \<lparr>agents = [(''data'', finished_data_agent), (''analysis'', AnalysisAgent),
                (''visualization'', VisualizationAgent), (''report'', ReportAgent)],
      taskQueue = [],
      activeTasks =
        [(''task_1000_k3j2h4g5f'',
          \<lparr>agentId = ''data'',
           task = thesis_task\<lparr>task_id := ''task_1000_k3j2h4g5f'', task_progress := JNum 0\<rparr>,
           startTime = 2000\<rparr>)],
      agentStatus = [(''data'', ''online''), (''analysis'', ''online''),
                     (''visualization'', ''online''), (''report'', ''offline'')],
      watchers = [(''task_1000_k3j2h4g5f'', ''data'')],
      detached = []\<rparr>"

section \<open>The status poll of the analysis view\<close>

text \<open>
  \<open>AppController.loadAnalysisProgress\<close> (\<open>src/unnamed/part_005\<close>) fetches the
  agent progress and the task list and passes them to \<open>renderAnalysisTaskList\<close> and
  \<open>renderAnalysisLogs\<close>, which write the \<open>innerHTML\<close> of one container each.  The
  displayed state is the content of the two containers, \<open>None\<close> for a container
  that is not in the document.  Fields of the JSON answer may be missing.  The text a
  time stamp is shown as depends on the locale and comes as the function
  \<open>toLocaleTimeString\<close>; case conversion is that of ASCII letters.
\<close>

record task_params =
  p_dataset_type :: "string option"
  p_cleaned_file :: "string option"
  p_input_file :: "string option"

record server_task =
  st_type :: "string option"
  st_id :: "string option"
  st_parameters :: "task_params option"

record task_data =
  td_active :: "server_task list option"
  td_queued :: "server_task list option"
  td_completed :: "server_task list option"

record server_log =
  sl_timestamp :: "string option"
  sl_message :: "string option"
  sl_level :: "string option"

record agent_data =
  recent_logs :: "server_log list option"

record display =
  analysisTaskList :: "string option"
  analysisLogs :: "string option"

definition js_truthy_str :: "string option \<Rightarrow> bool" where
  "js_truthy_str v = (case v of None \<Rightarrow> False | Some s \<Rightarrow> s \<noteq> [])"

definition js_list_or_empty :: "'a list option \<Rightarrow> 'a list" where
  \<comment> \<open>\<open>xs || []\<close>\<close>
  "js_list_or_empty v = (case v of None \<Rightarrow> [] | Some xs \<Rightarrow> xs)"

definition js_slice_last :: "nat \<Rightarrow> 'a list \<Rightarrow> 'a list" where
  \<comment> \<open>\<open>xs.slice(-n)\<close>\<close>
  "js_slice_last n xs = drop (length xs - n) xs"

definition js_toLowerCase :: "string \<Rightarrow> string" where
  "js_toLowerCase s =
     map (\<lambda>c. if 65 \<le> (of_char c :: nat) \<and> (of_char c :: nat) \<le> 90
              then char_of ((of_char c :: nat) + 32) else c) s"

definition js_toUpperCase :: "string \<Rightarrow> string" where
  "js_toUpperCase s =
     map (\<lambda>c. if 97 \<le> (of_char c :: nat) \<and> (of_char c :: nat) \<le> 122
              then char_of ((of_char c :: nat) - 32) else c) s"

definition is_analysis_task :: "server_task \<Rightarrow> bool" where
  \<comment> \<open>\<open>['statistical_analysis', 'chart_generation'].includes(task.type)\<close>\<close>
  "is_analysis_task t = (case st_type t of
       None \<Rightarrow> False
     | Some ty \<Rightarrow> List.member [''statistical_analysis'', ''chart_generation''] ty)"

definition datasetLabel :: "server_task \<Rightarrow> string" where
  \<open>datasetLabel t = (case st_parameters t of
       None \<Rightarrow> []
     | Some p \<Rightarrow>
         if js_truthy_str (p_dataset_type p)
         then ''<span class="badge bg-secondary ms-2">'' @
             (js_str (p_dataset_type p)) @
             ''</span>''
         else [])\<close>

definition description :: "server_task \<Rightarrow> string option" where
  \<comment> \<open>\<open>task.parameters?.cleaned_file || task.parameters?.input_file || task.id\<close>\<close>
  "description t = (case st_parameters t of
       None \<Rightarrow> st_id t
     | Some p \<Rightarrow>
         if js_truthy_str (p_cleaned_file p) then p_cleaned_file p
         else if js_truthy_str (p_input_file p) then p_input_file p
         else st_id t)"

definition renderTask :: "server_task \<Rightarrow> string \<Rightarrow> string \<Rightarrow> string" where
  \<open>renderTask t statusLabel badgeClass =
     ''\<newline>'' @
       ''                <li class="list-group-item bg-dark d-flex justify-content-between align-items-start">\<newline>'' @
       ''                    <div class="me-3">\<newline>'' @
       ''                        <div><strong>'' @
       (js_str (st_type t)) @
       ''</strong>'' @
       (datasetLabel t) @
       ''</div>\<newline>'' @
       ''                        <small class="text-muted">'' @
       (js_str (description t)) @
       ''</small>\<newline>'' @
       ''                    </div>\<newline>'' @
       ''                    <span class="badge '' @
       (badgeClass) @
       ''">'' @
       (statusLabel) @
       ''</span>\<newline>'' @
       ''                </li>\<newline>'' @
       ''            ''\<close>

definition analysisTaskList_html :: "task_data option \<Rightarrow> string" where
  \<comment> \<open>the text \<open>renderAnalysisTaskList\<close> assigns to \<open>container.innerHTML\<close>\<close>
  \<open>analysisTaskList_html taskData =
        (case taskData of
           None \<Rightarrow> ''<p class="text-warning mb-0">Unable to load task queue.</p>''
         | Some td \<Rightarrow>
            (let activeL = filter is_analysis_task (js_list_or_empty (td_active td));
                 queuedL = filter is_analysis_task (js_list_or_empty (td_queued td));
                 completedL = rev (js_slice_last 5 (filter is_analysis_task (js_list_or_empty (td_completed td))));
                 sections =
                   (if activeL \<noteq> [] then
                      [''\<newline>'' @
       ''                <h6 class="text-info">Active</h6>\<newline>'' @
       ''                <ul class="list-group list-group-flush mb-3">\<newline>'' @
       ''                    '' @
                       (concat (map (\<lambda>t. renderTask t ''In Progress'' ''bg-info'') activeL)) @
                       ''\<newline>'' @
       ''                </ul>\<newline>'' @
       ''            '']
                    else [])
                   @ (if queuedL \<noteq> [] then
                      [''\<newline>'' @
       ''                <h6 class="text-warning">Queued</h6>\<newline>'' @
       ''                <ul class="list-group list-group-flush mb-3">\<newline>'' @
       ''                    '' @
                       (concat (map (\<lambda>t. renderTask t ''Queued'' ''bg-warning text-dark'') (take 5 queuedL))) @
                       ''\<newline>'' @
       ''                </ul>\<newline>'' @
       ''            '']
                    else [])
                   @ (if completedL \<noteq> [] then
                      [''\<newline>'' @
       ''                <h6 class="text-success">Recently Completed</h6>\<newline>'' @
       ''                <ul class="list-group list-group-flush">\<newline>'' @
       ''                    '' @
                       (concat (map (\<lambda>t. renderTask t ''Done'' ''bg-success'') completedL)) @
                       ''\<newline>'' @
       ''                </ul>\<newline>'' @
       ''            '']
                    else [])
             in if sections \<noteq> [] then concat sections
                else ''<p class="text-muted mb-0">No analysis tasks at the moment.</p>''))\<close>

definition renderAnalysisTaskList :: "task_data option \<Rightarrow> display \<Rightarrow> display" where
  \<comment> \<open>nothing happens when the container is not in the document\<close>
  "renderAnalysisTaskList taskData d = (case analysisTaskList d of
       None \<Rightarrow> d
     | Some _ \<Rightarrow> d\<lparr>analysisTaskList := Some (analysisTaskList_html taskData)\<rparr>)"

definition level_or_info :: "string option \<Rightarrow> string" where
  \<comment> \<open>\<open>level || 'info'\<close>\<close>
  "level_or_info v = (if js_truthy_str v then js_str v else ''info'')"

definition levelClass :: "string option \<Rightarrow> string" where
  "levelClass v =
     (let l = js_toLowerCase (level_or_info v)
      in if l = ''error'' then ''text-danger''
         else if l = ''warning'' then ''text-warning''
         else if l = ''success'' then ''text-success''
         else ''text-info'')"

definition renderLog :: "(string option \<Rightarrow> string) \<Rightarrow> server_log \<Rightarrow> string" where
  \<comment> \<open>the template of one log entry\<close>
  \<open>renderLog toLocaleTimeString l =
     ''\<newline>'' @
       ''                    <li class="mb-2">\<newline>'' @
       ''                        <div class="d-flex justify-content-between">\<newline>'' @
       ''                            <small class="text-muted">'' @
       (toLocaleTimeString (sl_timestamp l)) @
       ''</small>\<newline>'' @
       ''                            <small class="'' @
       (levelClass (sl_level l)) @
       ''">'' @
       (js_toUpperCase (level_or_info (sl_level l))) @
       ''</small>\<newline>'' @
       ''                        </div>\<newline>'' @
       ''                        <div>'' @
       (js_str (sl_message l)) @
       ''</div>\<newline>'' @
       ''                    </li>\<newline>'' @
       ''                ''\<close>

definition analysisLogs_html :: "(string option \<Rightarrow> string) \<Rightarrow> server_log list \<Rightarrow> string" where
  \<comment> \<open>the text \<open>renderAnalysisLogs\<close> assigns to \<open>container.innerHTML\<close>\<close>
  \<open>analysisLogs_html toLocaleTimeString entries =
     (if entries = [] then ''<p class="text-muted mb-0">No recent logs.</p>''
      else
        ''\<newline>'' @
       ''            <ul class="list-unstyled mb-0">\<newline>'' @
       ''                '' @
        concat (map (renderLog toLocaleTimeString) (rev (js_slice_last 10 entries))) @
        ''\<newline>'' @
       ''            </ul>\<newline>'' @
       ''        '')\<close>

definition renderAnalysisLogs :: "(string option \<Rightarrow> string) \<Rightarrow> server_log list \<Rightarrow> display \<Rightarrow> display" where
  "renderAnalysisLogs toLocaleTimeString entries d = (case analysisLogs d of
       None \<Rightarrow> d
     | Some _ \<Rightarrow> d\<lparr>analysisLogs := Some (analysisLogs_html toLocaleTimeString entries)\<rparr>)"

definition merge_status_poll ::
  "(string option \<Rightarrow> string) \<Rightarrow> agent_data option \<Rightarrow> task_data option \<Rightarrow> display \<Rightarrow> display" where
  \<comment> \<open>the two calls of \<open>loadAnalysisProgress\<close>:
      \<open>this.renderAnalysisTaskList(taskData);
       this.renderAnalysisLogs(agentData?.recent_logs || [])\<close>\<close>
  "merge_status_poll toLocaleTimeString agentData taskData d =
     renderAnalysisLogs toLocaleTimeString
       (case agentData of None \<Rightarrow> [] | Some ad \<Rightarrow> js_list_or_empty (recent_logs ad))
       (renderAnalysisTaskList taskData d)"

section \<open>What each operation leaves alone\<close>

lemma trackTaskProgress_frame [simp]:
  "taskQueue (trackTaskProgress tid aid s) = taskQueue s"
  "activeTasks (trackTaskProgress tid aid s) = activeTasks s"
  "agents (trackTaskProgress tid aid s) = agents s"
  "agentStatus (trackTaskProgress tid aid s) = agentStatus s"
  "detached (trackTaskProgress tid aid s) = detached s"
  by (simp_all add: trackTaskProgress_def split: option.splits)

lemma assignTask_frame [simp]:
  "taskQueue (assignTask aid t now s) = taskQueue s"
  "agentStatus (assignTask aid t now s) = agentStatus s"
  "detached (assignTask aid t now s) = detached s"
  by (simp_all add: assignTask_def split: option.splits)

lemma assignTask_keys:
  "fst ` set (activeTasks (assignTask aid t now s)) \<subseteq> insert (task_id t) (fst ` set (activeTasks s))"
  by (auto simp: assignTask_def dom_update split: option.splits)

lemma processTaskQueue_cases:
  "processTaskQueue r now s = s
   \<or> (\<exists>t rest. taskQueue s = t # rest
        \<and> (processTaskQueue r now s = s\<lparr>taskQueue := rest\<rparr>
           \<or> (\<exists>aid. processTaskQueue r now s = assignTask aid t now (s\<lparr>taskQueue := rest\<rparr>))))"
  by (auto simp: processTaskQueue_def Let_def split: list.splits option.splits)

lemma updateAgentStatuses_frame [simp]:
  "taskQueue (updateAgentStatuses s) = taskQueue s"
  "activeTasks (updateAgentStatuses s) = activeTasks s"
  "agents (updateAgentStatuses s) = agents s"
  "detached (updateAgentStatuses s) = detached s"
  "watchers (updateAgentStatuses s) = watchers s"
  by (simp_all add: updateAgentStatuses_def)

lemma agent_resume_frame [simp]:
  "taskQueue (agent_resume aid now s) = taskQueue s"
  "activeTasks (agent_resume aid now s) = activeTasks s"
  "agentStatus (agent_resume aid now s) = agentStatus s"
  "detached (agent_resume aid now s) = detached s"
  "watchers (agent_resume aid now s) = watchers s"
  by (simp_all add: agent_resume_def split: option.splits)

lemma watcher_tick_frame [simp]:
  "taskQueue (watcher_tick tid aid s) = taskQueue s"
  "agents (watcher_tick tid aid s) = agents s"
  "agentStatus (watcher_tick tid aid s) = agentStatus s"
  by (simp_all add: watcher_tick_def clearInterval_def Let_def split: option.splits)

lemma watcher_tick_keys: "map fst (activeTasks (watcher_tick tid aid s)) = map fst (activeTasks s)"
  by (auto simp: watcher_tick_def clearInterval_def js_string_prop_def Let_def update_keys
       map_of_eq_None_iff[symmetric] split: option.splits)

lemma watcher_tick_dom:
  "fst ` set (activeTasks (watcher_tick tid aid s)) = fst ` set (activeTasks s)"
  using arg_cong [OF watcher_tick_keys, of set tid aid s] by simp

lemma watcher_tick_detached: "detached (watcher_tick tid aid s) = detached s"
  by (auto simp: watcher_tick_def clearInterval_def js_string_prop_def Let_def split: option.splits)

lemma set_update_cases:
  "(k', v') \<in> set (AList.update k v al) \<Longrightarrow> (k', v') = (k, v) \<or> (k', v') \<in> set al"
  by (induction al) (auto split: if_splits)

lemma reachable_run: "reachable s \<Longrightarrow> admissible_run es s \<Longrightarrow> reachable (run es s)"
proof (induction es arbitrary: s)
  case Nil
  then show ?case by (simp add: run_def)
next
  case (Cons e es)
  from Cons.prems have "reachable (fire e s)" by (simp add: reachable.step)
  moreover from Cons.prems have "admissible_run es (fire e s)" by simp
  ultimately have "reachable (run es (fire e s))" by (rule Cons.IH)
  then show ?case by (simp add: run_def)
qed

lemma executeTask_not_online: "status (executeTask now t a) \<noteq> ''online''"
  by (simp add: executeTask_def performTask_def processData_def loop_head_def log_agent_def
           split: agent_kind.splits)

lemma executeTask_currentTask: "currentTask (executeTask now t a) = Some t"
  by (simp add: executeTask_def performTask_def processData_def loop_head_def log_agent_def
           split: agent_kind.splits)

section \<open>Agents: the capability check\<close>

lemma member_set: "List.member xs x = (x \<in> set xs)"
  by (induction xs) auto

text \<open>
  Claim C3.  \<open>canHandleTask\<close> is true exactly when the type of the task is among the
  capabilities of the agent and the status of the agent is \<open>online\<close>; it is a function
  of the agent and the task that returns a truth value and no state, and it is false for
  every agent that is not \<open>online\<close>, whatever its capabilities.
\<close>

theorem canHandleTask_iff:
  "(canHandleTask a t \<longleftrightarrow> task_type t \<in> set (capabilities a) \<and> status a = ''online'')
   \<and> (status a \<noteq> ''online'' \<longrightarrow> \<not> canHandleTask a t)"
  by (simp add: canHandleTask_def member_set)

theorem canHandleTask_iff_witness:
  "status ReportAgent \<noteq> ''online''
   \<and> ''report_generation'' \<in> set (capabilities ReportAgent)
   \<and> \<not> canHandleTask ReportAgent
        \<lparr>task_id = ''task_1_abc'', task_name = Some ''Create Analysis Report'',
         task_type = ''report_generation'', task_priority = Some ''low'',
         task_parameters = None, input_file = None, dataset_type = None,
         output_file = None, task_status = None, task_progress = JUndefined\<rparr>"
  using canHandleTask_iff [of ReportAgent
        "\<lparr>task_id = ''task_1_abc'', task_name = Some ''Create Analysis Report'',
         task_type = ''report_generation'', task_priority = Some ''low'',
         task_parameters = None, input_file = None, dataset_type = None,
         output_file = None, task_status = None, task_progress = JUndefined\<rparr>"]
  by (simp add: ReportAgent_def BaseAgent_def)

section \<open>The example runs\<close>

lemma update_fresh_append: "k \<notin> fst ` set al \<Longrightarrow> AList.update k v al = al @ [(k, v)]"
  by (induction al) auto

lemma update_same_owner:
  "map_of al k = Some v0 \<Longrightarrow> agentId v = agentId v0 \<Longrightarrow>
   map (agentId \<circ> snd) (AList.update k v al) = map (agentId \<circ> snd) al"
  by (induction al) (auto split: if_splits)

lemma watcher_tick_owners:
  "map (agentId \<circ> snd) (activeTasks (watcher_tick tid aid s)) = map (agentId \<circ> snd) (activeTasks s)"
  by (auto simp: watcher_tick_def clearInterval_def js_string_prop_def Let_def update_same_owner
        split: option.splits)

lemma addTask_starts_on_first_listed:
  assumes q: "taskQueue s = []"
    and av: "availableAgents s = aid # others" and ne: "aid \<noteq> []"
    and ag: "map_of (agents s) aid = Some a"
    and can: "task_type t \<in> set (capabilities a)" "status a = ''online''"
    and fresh: "generateTaskId now rnd \<notin> fst ` set (activeTasks s)"
  shows "taskQueue (addTask t now rnd 0 s) = []"
    and "activeTasks (addTask t now rnd 0 s) =
       activeTasks s @ [(generateTaskId now rnd,
         \<lparr>agentId = aid, task = t\<lparr>task_id := generateTaskId now rnd\<rparr>, startTime = now\<rparr>)]"
    and "map_of (agents (addTask t now rnd 0 s)) aid
       = Some (executeTask now (t\<lparr>task_id := generateTaskId now rnd\<rparr>) a)"
    and "agents (addTask t now rnd 0 s)
       = AList.update aid (executeTask now (t\<lparr>task_id := generateTaskId now rnd\<rparr>) a) (agents s)"
proof -
  have sel: "selectBestAgent t' (aid # others) 0 = Some aid" for t'
    by (simp add: selectBestAgent_def js_index_def)
  from can have c: "canHandleTask a (t\<lparr>task_id := generateTaskId now rnd\<rparr>)"
    by (simp add: canHandleTask_def member_set)
  have eq: "addTask t now rnd 0 s =
      trackTaskProgress (generateTaskId now rnd) aid
        (s\<lparr>taskQueue := [],
           activeTasks := AList.update (generateTaskId now rnd)
              \<lparr>agentId = aid, task = t\<lparr>task_id := generateTaskId now rnd\<rparr>, startTime = now\<rparr> (activeTasks s),
           agents := AList.update aid (executeTask now (t\<lparr>task_id := generateTaskId now rnd\<rparr>) a) (agents s)\<rparr>)"
    using q av ne ag c sel
    by (simp add: addTask_def processTaskQueue_def assignTask_def availableAgents_def Let_def)
  show "taskQueue (addTask t now rnd 0 s) = []" by (simp add: eq)
  show "activeTasks (addTask t now rnd 0 s) =
       activeTasks s @ [(generateTaskId now rnd,
         \<lparr>agentId = aid, task = t\<lparr>task_id := generateTaskId now rnd\<rparr>, startTime = now\<rparr>)]"
    using fresh by (simp add: eq update_fresh_append)
  show "map_of (agents (addTask t now rnd 0 s)) aid
       = Some (executeTask now (t\<lparr>task_id := generateTaskId now rnd\<rparr>) a)"
    by (simp add: eq update_conv')
  show "agents (addTask t now rnd 0 s)
       = AList.update aid (executeTask now (t\<lparr>task_id := generateTaskId now rnd\<rparr>) a) (agents s)"
    by (simp add: eq)
qed

lemma after_one_task_eq: "after_one_task = finished_state"
  by code_simp

lemma reachable_after_one_task: "reachable after_one_task"
proof -
  have "admissible_run one_task_run new_AgentManager"
    by code_simp
  then show ?thesis
    unfolding after_one_task_def by (rule reachable_run [OF reachable.init])
qed

lemma finished_state_facts:
  "taskQueue finished_state = []"
  "availableAgents finished_state = [''data'', ''analysis'', ''visualization'']"
  "map fst (activeTasks finished_state) = [''task_1000_k3j2h4g5f'']"
  "map (agentId \<circ> snd) (activeTasks finished_state) = [''data'']"
  "map_option status (map_of (agents finished_state) ''data'') = Some ''online''"
  "map_option capabilities (map_of (agents finished_state) ''data'')
     = Some [''data_processing'', ''data_cleaning'', ''data_validation'']"
  "watchers finished_state = [(''task_1000_k3j2h4g5f'', ''data'')]"
  by (simp_all add: finished_state_def finished_data_agent_def availableAgents_def)

lemma reachable_constructed: "reachable constructed"
proof -
  have "admissible_run initializeTaskQueue new_AgentManager"
    by code_simp
  then show ?thesis
    unfolding constructed_def by (rule reachable_run [OF reachable.init])
qed

lemma reachable_report_at_head: "reachable report_at_head"
proof -
  have "admissible_run (initializeTaskQueue @
          [EvTick 0 2000, EvResume ''data'' 2500, EvResume ''data'' 3000,
           EvResume ''data'' 3500, EvTick 0 4000]) new_AgentManager"
    by code_simp
  then show ?thesis
    unfolding report_at_head_def by (rule reachable_run [OF reachable.init])
qed

lemma reachable_visualization_running: "reachable visualization_running"
proof -
  have "admissible_run (initializeTaskQueue @ [EvTick (1/2) 2000, EvTick (3/4) 4000]) new_AgentManager"
    by code_simp
  then show ?thesis
    unfolding visualization_running_def by (rule reachable_run [OF reachable.init])
qed

lemma reachable_three_data_tasks: "reachable three_data_tasks"
proof -
  have "admissible_run
          [EvAddTask (upload_task ''a.csv'') 1200 ''0.z9y8x7w6v5u4'' 0,
           EvAddTask (upload_task ''b.csv'') 1400 ''0.m1n2b3v4c5x6'' 0] constructed"
    by code_simp
  then show ?thesis
    unfolding three_data_tasks_def by (rule reachable_run [OF reachable_constructed])
qed

lemma report_at_head_facts:
  "taskQueue report_at_head = [report_task\<lparr>task_id := ''task_1000_r4e3w2q1a''\<rparr>]"
  "availableAgents report_at_head = [''analysis'', ''visualization'']"
  "map fst (activeTasks report_at_head) = [''task_1000_k3j2h4g5f'']"
  "map (task_type \<circ> task \<circ> snd) (activeTasks report_at_head) = [''data_processing'']"
  "map_of (agents report_at_head) ''report'' = Some ReportAgent"
  "map_of (agents report_at_head) ''analysis'' = Some AnalysisAgent"
  by code_simp+

section \<open>Pending and active tasks\<close>

lemma disjoint_insert_step:
  "X \<subseteq> insert a K \<Longrightarrow> a \<notin> R \<Longrightarrow> R \<inter> K = {} \<Longrightarrow> R \<inter> X = {}"
  by blast

lemma ids_disjoint_processTaskQueue:
  assumes "ids_disjoint s" shows "ids_disjoint (processTaskQueue r now s)"
proof -
  consider "processTaskQueue r now s = s"
    | t rest where "taskQueue s = t # rest" "processTaskQueue r now s = s\<lparr>taskQueue := rest\<rparr>"
    | t rest aid where "taskQueue s = t # rest"
        "processTaskQueue r now s = assignTask aid t now (s\<lparr>taskQueue := rest\<rparr>)"
    using processTaskQueue_cases [of r now s] by blast
  then show ?thesis
  proof cases
    case 1
    with assms show ?thesis by simp
  next
    case 2
    with assms show ?thesis by (auto simp: ids_disjoint_def)
  next
    case 3
    have sub: "fst ` set (activeTasks (assignTask aid t now (s\<lparr>taskQueue := rest\<rparr>)))
            \<subseteq> insert (task_id t) (fst ` set (activeTasks s))"
      using assignTask_keys [of aid t now "s\<lparr>taskQueue := rest\<rparr>"] by simp
    from assms 3 have d: "distinct (map task_id rest)" and n: "task_id t \<notin> task_id ` set rest"
      and e: "task_id ` set rest \<inter> fst ` set (activeTasks s) = {}"
      by (auto simp: ids_disjoint_def)
    have "task_id ` set rest \<inter> fst ` set (activeTasks (assignTask aid t now (s\<lparr>taskQueue := rest\<rparr>))) = {}"
      by (rule disjoint_insert_step [OF sub n e])
    with d 3 show ?thesis by (simp add: ids_disjoint_def)
  qed
qed

lemma ids_disjoint_addTask:
  assumes "ids_disjoint s" and "fresh_id (generateTaskId now rnd) s"
  shows "ids_disjoint (addTask t now rnd r s)"
  unfolding addTask_def
  by (rule ids_disjoint_processTaskQueue) (use assms in \<open>auto simp: ids_disjoint_def fresh_id_def\<close>)

lemma ids_disjoint_fire:
  assumes "ids_disjoint s" and "admissible e s"
  shows "ids_disjoint (fire e s)"
proof (cases e)
  case (EvAddTask t now rnd r)
  with assms show ?thesis by (simp add: ids_disjoint_addTask)
next
  case (EvTick r now)
  from assms have "ids_disjoint (updateAgentStatuses s)" by (simp add: ids_disjoint_def)
  with EvTick show ?thesis by (simp add: monitoring_tick_def ids_disjoint_processTaskQueue)
next
  case (EvResume aid now)
  with assms show ?thesis by (simp add: ids_disjoint_def)
next
  case (EvWatch tid aid)
  with assms show ?thesis by (simp add: ids_disjoint_def watcher_tick_dom)
next
  case EvRefresh
  with assms show ?thesis by (simp add: ids_disjoint_def)
next
  case (EvUpload now out)
  with assms show ?thesis by (simp add: ids_disjoint_def split: option.splits)
qed

lemma reachable_ids_disjoint: "reachable s \<Longrightarrow> ids_disjoint s"
proof (induction rule: reachable.induct)
  case init
  show ?case by (simp add: ids_disjoint_def new_AgentManager_def)
next
  case (step s e)
  then show ?case by (simp add: ids_disjoint_fire)
qed

text \<open>
  Claim C5.  In every state the coordinator reaches, with \<open>generateTaskId\<close> returning
  ids not in use, the ids of the pending tasks are pairwise different and none of them
  is a key of the active map: a task is never pending and active at once.
\<close>

theorem pending_active_disjoint:
  assumes "reachable s"
  shows "distinct (map task_id (taskQueue s))
     \<and> (\<forall>t \<in> set (taskQueue s). map_of (activeTasks s) (task_id t) = None)"
proof -
  from assms have "ids_disjoint s" by (rule reachable_ids_disjoint)
  then have d: "distinct (map task_id (taskQueue s))"
    and e: "task_id ` set (taskQueue s) \<inter> fst ` set (activeTasks s) = {}"
    by (simp_all add: ids_disjoint_def)
  have "map_of (activeTasks s) (task_id t) = None" if "t \<in> set (taskQueue s)" for t
  proof -
    from that e have "task_id t \<notin> fst ` set (activeTasks s)" by blast
    then show ?thesis by (simp add: map_of_eq_None_iff)
  qed
  with d show ?thesis by blast
qed

theorem pending_active_disjoint_witness:
  "reachable report_at_head
   \<and> map task_id (taskQueue report_at_head) = [''task_1000_r4e3w2q1a'']
   \<and> map fst (activeTasks report_at_head) = [''task_1000_k3j2h4g5f'']
   \<and> distinct (map task_id (taskQueue report_at_head))
   \<and> map_of (activeTasks report_at_head) ''task_1000_r4e3w2q1a'' = None"
proof -
  note q = report_at_head_facts(1) and k = report_at_head_facts(3)
  from pending_active_disjoint [OF reachable_report_at_head] q k reachable_report_at_head
  show ?thesis by simp
qed

section \<open>The report agent\<close>

lemma executeTask_capabilities [simp]: "capabilities (executeTask now t a) = capabilities a"
  by (simp add: executeTask_def performTask_def processData_def loop_head_def log_agent_def
           split: agent_kind.splits)

lemma resume_capabilities [simp]: "capabilities (resume now a) = capabilities a"
  by (simp add: resume_def executeTask_completed_def executeTask_failed_def after_loop_def
        log_agent_def Let_def split: agent_pc.splits agent_kind.splits)

lemma handleFileUpload_capabilities [simp]: "capabilities (handleFileUpload now out a) = capabilities a"
  by (simp add: handleFileUpload_def log_agent_def split: upload_outcome.splits)

lemma resume_Idle [simp]: "pc a = Idle \<Longrightarrow> resume now a = a"
  by (simp add: resume_def)

lemma not_report_capability:
  "capabilities a = capabilities DataAgent \<or> capabilities a = capabilities AnalysisAgent
     \<or> capabilities a = capabilities VisualizationAgent \<Longrightarrow>
   canHandleTask a t \<Longrightarrow> task_type t \<noteq> ''report_generation''"
  by (auto simp: canHandleTask_def member_set DataAgent_def AnalysisAgent_def
        VisualizationAgent_def BaseAgent_def)

lemma offline_cannot_handle: "status a = ''offline'' \<Longrightarrow> \<not> canHandleTask a t"
  by (simp add: canHandleTask_def)

lemma registry_inv_queue [simp]: "registry_inv (s\<lparr>taskQueue := q\<rparr>) = registry_inv s"
  by (simp add: registry_inv_def)

lemma registry_inv_assignTask:
  assumes "registry_inv s" shows "registry_inv (assignTask aid t now s)"
proof -
  from assms obtain d an v rp where
    ag: "agents s = [(''data'', d), (''analysis'', an), (''visualization'', v), (''report'', rp)]"
    and caps: "capabilities d = capabilities DataAgent" "capabilities an = capabilities AnalysisAgent"
       "capabilities v = capabilities VisualizationAgent"
    and rp: "status rp = ''offline''" "pc rp = Idle"
    and act: "\<forall>(tid, info) \<in> set (activeTasks s). task_type (task info) \<noteq> ''report_generation''"
    unfolding registry_inv_def by blast
  show ?thesis
  proof (cases "\<exists>a. map_of (agents s) aid = Some a \<and> canHandleTask a t")
    case False
    then have "assignTask aid t now s = s"
      by (auto simp: assignTask_def split: option.splits)
    with assms show ?thesis by simp
  next
    case True
    then obtain a where a: "map_of (agents s) aid = Some a" "canHandleTask a t" by blast
    from a ag rp have which: "(aid = ''data'' \<and> a = d) \<or> (aid = ''analysis'' \<and> a = an)
        \<or> (aid = ''visualization'' \<and> a = v)"
      by (auto simp: offline_cannot_handle split: if_splits)
    with caps a(2) have ty: "task_type t \<noteq> ''report_generation''"
      using not_report_capability [of a t] by auto
    have eq: "assignTask aid t now s =
        trackTaskProgress (task_id t) aid
          (s\<lparr>activeTasks := AList.update (task_id t) \<lparr>agentId = aid, task = t, startTime = now\<rparr> (activeTasks s),
             agents := AList.update aid (executeTask now t a) (agents s)\<rparr>)"
      using a by (simp add: assignTask_def)
    have act': "\<forall>(tid, info) \<in> set (AList.update (task_id t) \<lparr>agentId = aid, task = t, startTime = now\<rparr> (activeTasks s)).
        task_type (task info) \<noteq> ''report_generation''"
      using act ty by (auto dest!: set_update_cases)
    from which ag caps rp act' show ?thesis
      unfolding eq registry_inv_def by auto
  qed
qed

lemma registry_inv_processTaskQueue:
  assumes "registry_inv s" shows "registry_inv (processTaskQueue r now s)"
  using processTaskQueue_cases [of r now s] assms
  by (auto simp: registry_inv_assignTask)

lemma registry_inv_updateAgentStatuses [simp]:
  "registry_inv (updateAgentStatuses s) = registry_inv s"
  by (simp add: registry_inv_def)

lemma registry_inv_agent_resume:
  assumes "registry_inv s" shows "registry_inv (agent_resume aid now s)"
  using assms unfolding registry_inv_def agent_resume_def
  by (auto split: option.splits if_splits)

lemma registry_inv_watcher_tick:
  assumes "registry_inv s" shows "registry_inv (watcher_tick tid aid s)"
proof -
  have "\<forall>(tid', info) \<in> set (activeTasks (watcher_tick tid aid s)). task_type (task info) \<noteq> ''report_generation''"
    using assms unfolding registry_inv_def
    by (auto simp: watcher_tick_def clearInterval_def js_string_prop_def Let_def
          split: option.splits dest!: set_update_cases map_of_SomeD)
  with assms show ?thesis by (simp add: registry_inv_def)
qed

lemma registry_inv_fire:
  assumes "registry_inv s" shows "registry_inv (fire e s)"
proof (cases e)
  case (EvAddTask t now rnd r)
  with assms show ?thesis by (simp add: addTask_def registry_inv_processTaskQueue)
next
  case (EvTick r now)
  with assms show ?thesis by (simp add: monitoring_tick_def registry_inv_processTaskQueue)
next
  case (EvResume aid now)
  with assms show ?thesis by (simp add: registry_inv_agent_resume)
next
  case (EvWatch tid aid)
  with assms show ?thesis by (simp add: registry_inv_watcher_tick)
next
  case EvRefresh
  with assms show ?thesis by simp
next
  case (EvUpload now out)
  with assms show ?thesis unfolding registry_inv_def by auto
qed

lemma reachable_registry_inv: "reachable s \<Longrightarrow> registry_inv s"
proof (induction rule: reachable.induct)
  case init
  show ?case
    by (simp add: registry_inv_def new_AgentManager_def ReportAgent_def BaseAgent_def)
next
  case (step s e)
  then show ?case by (simp add: registry_inv_fire)
qed

text \<open>
  Claim C10.  The report agent is constructed \<open>offline\<close> and stays so in every state the
  coordinator reaches; no agent passes \<open>canHandleTask\<close> for a \<open>report_generation\<close>
  task, so \<open>assignTask\<close> does nothing for it, a dispatch cycle with such a task at the
  head of the queue either leaves the state as it is or only removes the task from the
  queue, and the active map never holds a task of that type.
\<close>

theorem report_generation_never_assigned:
  assumes "reachable s" and "task_type t = ''report_generation''"
  shows "map_option status (map_of (agents s) ''report'') = Some ''offline''
     \<and> (\<forall>aid a. map_of (agents s) aid = Some a \<longrightarrow> \<not> canHandleTask a t)
     \<and> (\<forall>aid now. assignTask aid t now s = s)
     \<and> (\<forall>rest r now. taskQueue s = t # rest \<longrightarrow>
           processTaskQueue r now s = s \<or> processTaskQueue r now s = s\<lparr>taskQueue := rest\<rparr>)
     \<and> (\<forall>(tid, info) \<in> set (activeTasks s). task_type (task info) \<noteq> ''report_generation'')"
proof -
  from assms(1) have inv: "registry_inv s" by (rule reachable_registry_inv)
  then obtain d an v rp where
    ag: "agents s = [(''data'', d), (''analysis'', an), (''visualization'', v), (''report'', rp)]"
    and caps: "capabilities d = capabilities DataAgent" "capabilities an = capabilities AnalysisAgent"
       "capabilities v = capabilities VisualizationAgent"
    and rp: "status rp = ''offline''" "pc rp = Idle"
    and act: "\<forall>(tid, info) \<in> set (activeTasks s). task_type (task info) \<noteq> ''report_generation''"
    unfolding registry_inv_def by blast
  have off: "map_option status (map_of (agents s) ''report'') = Some ''offline''"
    using ag rp by simp
  have no: "\<not> canHandleTask a t" if "map_of (agents s) aid = Some a" for aid a
  proof
    assume h: "canHandleTask a t"
    from that ag have "a = d \<or> a = an \<or> a = v \<or> a = rp" by (auto split: if_splits)
    with h rp caps assms(2) show False
      using not_report_capability [of a t] offline_cannot_handle [of rp t] by auto
  qed
  have asg: "assignTask aid t now s = s" for aid now
    using no [of aid] by (auto simp: assignTask_def split: option.splits)
  have asg': "assignTask aid t now (s\<lparr>taskQueue := rest\<rparr>) = s\<lparr>taskQueue := rest\<rparr>" for aid now rest
    using no [of aid] by (auto simp: assignTask_def split: option.splits)
  have disp: "processTaskQueue r now s = s \<or> processTaskQueue r now s = s\<lparr>taskQueue := rest\<rparr>"
    if "taskQueue s = t # rest" for rest r now
    using processTaskQueue_cases [of r now s] that asg' by auto
  from off no asg disp act show ?thesis by blast
qed

theorem report_generation_never_assigned_witness:
  "reachable report_at_head
   \<and> task_type (report_task\<lparr>task_id := ''task_1000_r4e3w2q1a''\<rparr>) = ''report_generation''
   \<and> taskQueue report_at_head = [report_task\<lparr>task_id := ''task_1000_r4e3w2q1a''\<rparr>]
   \<and> map_option status (map_of (agents report_at_head) ''report'') = Some ''offline''
   \<and> \<not> canHandleTask ReportAgent (report_task\<lparr>task_id := ''task_1000_r4e3w2q1a''\<rparr>)
   \<and> assignTask ''report'' (report_task\<lparr>task_id := ''task_1000_r4e3w2q1a''\<rparr>) 6000 report_at_head
        = report_at_head
   \<and> (processTaskQueue 0 6000 report_at_head = report_at_head
        \<or> processTaskQueue 0 6000 report_at_head = report_at_head\<lparr>taskQueue := []\<rparr>)
   \<and> map (task_type \<circ> task \<circ> snd) (activeTasks report_at_head) = [''data_processing'']"
proof -
  have ty: "task_type (report_task\<lparr>task_id := ''task_1000_r4e3w2q1a''\<rparr>) = ''report_generation''"
    by (simp add: report_task_def new_task_def)
  note q = report_at_head_facts(1) and a = report_at_head_facts(5) and e = report_at_head_facts(4)
  from report_generation_never_assigned [OF reachable_report_at_head ty] q a e
    reachable_report_at_head ty
  show ?thesis by blast
qed

section \<open>Dispatch\<close>

text \<open>
  Claim C2.  When a dispatch cycle takes the task at the head of the queue and picks an
  agent that fails the test of \<open>assignTask\<close>, the only change of state is that the task
  has left the queue: it is not put back, nothing is added to the active map, and no
  agent and no watcher is started.
\<close>

theorem failed_assignment_drops_task:
  assumes "taskQueue s = t # rest"
    and "selectBestAgent t (availableAgents s) r = Some aid"
    and "\<not> agent_can_handle s aid t"
  shows "processTaskQueue r now s = s\<lparr>taskQueue := rest\<rparr>"
proof -
  from assms(2) have "availableAgents s \<noteq> []"
    by (auto simp: selectBestAgent_def js_index_def)
  moreover from assms(3) have "assignTask aid t now (s\<lparr>taskQueue := rest\<rparr>) = s\<lparr>taskQueue := rest\<rparr>"
    by (simp add: assignTask_def agent_can_handle_def split: option.splits)
  ultimately show ?thesis
    using assms(1,2) by (simp add: processTaskQueue_def Let_def)
qed

theorem failed_assignment_drops_task_witness:
  "taskQueue report_at_head = [report_task\<lparr>task_id := ''task_1000_r4e3w2q1a''\<rparr>]
   \<and> availableAgents report_at_head = [''analysis'', ''visualization'']
   \<and> selectBestAgent (report_task\<lparr>task_id := ''task_1000_r4e3w2q1a''\<rparr>)
        (availableAgents report_at_head) 0 = Some ''analysis''
   \<and> \<not> agent_can_handle report_at_head ''analysis'' (report_task\<lparr>task_id := ''task_1000_r4e3w2q1a''\<rparr>)
   \<and> processTaskQueue 0 6000 report_at_head = report_at_head\<lparr>taskQueue := []\<rparr>"
proof -
  note q = report_at_head_facts(1) and v = report_at_head_facts(2)
  have c: "selectBestAgent (report_task\<lparr>task_id := ''task_1000_r4e3w2q1a''\<rparr>)
        (availableAgents report_at_head) 0 = Some ''analysis''"
    unfolding v by code_simp
  have "\<not> canHandleTask AnalysisAgent (report_task\<lparr>task_id := ''task_1000_r4e3w2q1a''\<rparr>)"
    by code_simp
  then have n: "\<not> agent_can_handle report_at_head ''analysis'' (report_task\<lparr>task_id := ''task_1000_r4e3w2q1a''\<rparr>)"
    by (simp add: agent_can_handle_def report_at_head_facts(6))
  from failed_assignment_drops_task [OF q c n, of 6000] q v c n show ?thesis by (intro conjI)
qed

text \<open>
  Claim C7.  \<open>addTask\<close> gives the task the id \<open>task_<time>_<suffix>\<close>, with the clock
  reading and nine characters of the base-36 text of a random number, appends it to the
  end of the queue and runs a dispatch cycle in the same call: where no agent is listed
  as \<open>online\<close> the new task stays at the end of the queue, and where one is, the head
  of the extended queue has been taken off when \<open>addTask\<close> returns.
\<close>

theorem addTask_appends_and_dispatches:
  "generateTaskId now rnd = ''task_'' @ string_of_nat now @ ''_'' @ take 9 (drop 2 rnd)
   \<and> addTask t now rnd r s =
       processTaskQueue r now (s\<lparr>taskQueue := taskQueue s @ [t\<lparr>task_id := generateTaskId now rnd\<rparr>]\<rparr>)
   \<and> (availableAgents s = [] \<longrightarrow>
        addTask t now rnd r s = s\<lparr>taskQueue := taskQueue s @ [t\<lparr>task_id := generateTaskId now rnd\<rparr>]\<rparr>)
   \<and> (availableAgents s \<noteq> [] \<longrightarrow>
        taskQueue (addTask t now rnd r s) = tl (taskQueue s @ [t\<lparr>task_id := generateTaskId now rnd\<rparr>]))"
  by (cases "taskQueue s")
     (auto simp: addTask_def generateTaskId_def processTaskQueue_def availableAgents_def Let_def
           split: option.splits)

theorem addTask_appends_and_dispatches_witness:
  "generateTaskId 1000 ''0.k3j2h4g5f6d7'' = ''task_1000_k3j2h4g5f''
   \<and> availableAgents new_AgentManager = []
   \<and> addTask thesis_task 1000 ''0.k3j2h4g5f6d7'' 0 new_AgentManager
       = new_AgentManager\<lparr>taskQueue := [thesis_task\<lparr>task_id := ''task_1000_k3j2h4g5f''\<rparr>]\<rparr>
   \<and> availableAgents after_one_task = [''data'', ''analysis'', ''visualization'']
   \<and> taskQueue after_one_task = []
   \<and> taskQueue (addTask (upload_task ''data.csv'') 6500 ''0.z9y8x7w6v5u4'' 0 after_one_task) = []"
proof -
  have g: "generateTaskId 1000 ''0.k3j2h4g5f6d7'' = ''task_1000_k3j2h4g5f''"
    by code_simp
  have a0: "availableAgents new_AgentManager = []"
    by code_simp
  have q0: "taskQueue new_AgentManager = []"
    by (simp add: new_AgentManager_def)
  have a1: "availableAgents after_one_task = [''data'', ''analysis'', ''visualization'']"
    by (simp only: after_one_task_eq finished_state_facts)
  have q1: "taskQueue after_one_task = []"
    by (simp only: after_one_task_eq finished_state_facts)
  note w0 = addTask_appends_and_dispatches [of 1000 "''0.k3j2h4g5f6d7''" thesis_task 0 new_AgentManager]
  note w1 = addTask_appends_and_dispatches
    [of 6500 "''0.z9y8x7w6v5u4''" "upload_task ''data.csv''" 0 after_one_task]
  from w0 a0
  have "addTask thesis_task 1000 ''0.k3j2h4g5f6d7'' 0 new_AgentManager
      = new_AgentManager\<lparr>taskQueue := taskQueue new_AgentManager
          @ [thesis_task\<lparr>task_id := generateTaskId 1000 ''0.k3j2h4g5f6d7''\<rparr>]\<rparr>"
    by blast
  then have e0: "addTask thesis_task 1000 ''0.k3j2h4g5f6d7'' 0 new_AgentManager
       = new_AgentManager\<lparr>taskQueue := [thesis_task\<lparr>task_id := ''task_1000_k3j2h4g5f''\<rparr>]\<rparr>"
    by (simp only: g q0 append_Nil)
  have ne: "availableAgents after_one_task \<noteq> []"
    by (simp add: a1)
  from w1 ne
  have "taskQueue (addTask (upload_task ''data.csv'') 6500 ''0.z9y8x7w6v5u4'' 0 after_one_task)
      = tl (taskQueue after_one_task
             @ [(upload_task ''data.csv'')\<lparr>task_id := generateTaskId 6500 ''0.z9y8x7w6v5u4''\<rparr>])"
    by blast
  then have e1: "taskQueue (addTask (upload_task ''data.csv'') 6500 ''0.z9y8x7w6v5u4'' 0 after_one_task) = []"
    by (simp only: q1 append_Nil list.sel)
  show ?thesis
    using g a0 e0 a1 q1 e1 by (intro conjI)
qed

lemma addTask_frontend_no_dispatch:
  "addTask_frontend t now rnd s = s\<lparr>taskQueue := taskQueue s @ [t\<lparr>task_id := generateTaskId now rnd\<rparr>]\<rparr>"
  by (simp add: addTask_frontend_def)

section \<open>First in, first out\<close>

lemma fold_update_keys:
  "set (map fst ags) \<subseteq> set (map fst m) \<Longrightarrow>
   map fst (fold (\<lambda>(k, a). AList.update k (f a)) ags m) = map fst m"
proof (induction ags arbitrary: m)
  case Nil
  then show ?case by simp
next
  case (Cons p ags)
  obtain k a where p: "p = (k, a)" by (cases p)
  from Cons.prems p have k: "k \<in> set (map fst m)" by simp
  then have keys: "map fst (AList.update k (f a) m) = map fst m" by (simp add: update_keys)
  with Cons.prems have "set (map fst ags) \<subseteq> set (map fst (AList.update k (f a) m))" by simp
  from Cons.IH [OF this] keys p show ?case by simp
qed

lemma fold_update_map_of:
  "distinct (map fst ags) \<Longrightarrow>
   map_of (fold (\<lambda>(k, a). AList.update k (f a)) ags m) k =
     (case map_of ags k of Some a \<Rightarrow> Some (f a) | None \<Rightarrow> map_of m k)"
proof (induction ags arbitrary: m)
  case Nil
  then show ?case by simp
next
  case (Cons p ags)
  obtain k' a' where p: "p = (k', a')" by (cases p)
  from Cons.prems p have d: "distinct (map fst ags)" and n: "k' \<notin> fst ` set ags" by auto
  from n have none: "map_of ags k' = None" by (simp add: map_of_eq_None_iff)
  show ?case
    using Cons.IH [OF d, of "AList.update k' (f a') m"] p none
    by (auto simp: update_conv' split: option.splits)
qed

lemma distinct_singleton_set: "distinct xs \<Longrightarrow> set xs = {x} \<Longrightarrow> xs = [x]"
  by (cases xs) (auto simp: insert_eq_iff dest: subset_singletonD)

lemma availableAgents_after_refresh:
  assumes cons: "registry_consistent s"
    and ag: "map_of (agents s) aid = Some a"
    and only: "only_online s aid"
  shows "availableAgents (updateAgentStatuses s) = (if status a = ''online'' then [aid] else [])"
proof -
  let ?A = "agentStatus (updateAgentStatuses s)"
  from cons have keq: "map fst (agentStatus s) = map fst (agents s)"
    and d: "distinct (map fst (agents s))"
    by (simp_all add: registry_consistent_def)
  have keys: "map fst ?A = map fst (agents s)"
    using fold_update_keys [of "agents s" "agentStatus s" getStatus] keq
    by (simp add: updateAgentStatuses_def)
  have look: "map_of ?A k = map_option status (map_of (agents s) k)" for k
  proof (cases "map_of (agents s) k")
    case None
    then have "k \<notin> fst ` set (agents s)" by (simp add: map_of_eq_None_iff)
    with keq have "k \<notin> fst ` set (agentStatus s)" by (metis set_map)
    then have "map_of (agentStatus s) k = None" by (simp add: map_of_eq_None_iff)
    with None show ?thesis
      using fold_update_map_of [OF d, of getStatus "agentStatus s" k]
      by (simp add: updateAgentStatuses_def)
  next
    case (Some b)
    then show ?thesis
      using fold_update_map_of [OF d, of getStatus "agentStatus s" k]
      by (simp add: updateAgentStatuses_def getStatus_def)
  qed
  have dA: "distinct (map fst ?A)" using keys d by simp
  have dist: "distinct (availableAgents (updateAgentStatuses s))"
    unfolding availableAgents_def using dA by (rule distinct_map_filter)
  have mem: "k \<in> set (availableAgents (updateAgentStatuses s))
      \<longleftrightarrow> map_option status (map_of (agents s) k) = Some ''online''" for k
  proof -
    have "k \<in> set (availableAgents (updateAgentStatuses s)) \<longleftrightarrow> (k, ''online'') \<in> set ?A"
      by (force simp: availableAgents_def)
    also have "\<dots> \<longleftrightarrow> map_of ?A k = Some ''online''"
      using dA by simp
    finally show ?thesis by (simp add: look)
  qed
  have others: "map_option status (map_of (agents s) k) \<noteq> Some ''online''" if "k \<noteq> aid" for k
  proof
    assume h: "map_option status (map_of (agents s) k) = Some ''online''"
    then obtain b where b: "map_of (agents s) k = Some b" "status b = ''online''" by auto
    then have "(k, b) \<in> set (agents s)" by (auto dest: map_of_SomeD)
    with only have "k = aid \<or> status b \<noteq> ''online''"
      by (auto simp: only_online_def list_all_iff)
    with that b show False by simp
  qed
  show ?thesis
  proof (cases "status a = ''online''")
    case True
    have "k \<in> set (availableAgents (updateAgentStatuses s)) \<longleftrightarrow> k = aid" for k
      using mem [of k] others [of k] ag True by (cases "k = aid") auto
    then have "set (availableAgents (updateAgentStatuses s)) = {aid}"
      by blast
    with dist True show ?thesis by (simp add: distinct_singleton_set)
  next
    case False
    have "k \<notin> set (availableAgents (updateAgentStatuses s))" for k
      using mem [of k] others [of k] ag False by (cases "k = aid") auto
    then have "availableAgents (updateAgentStatuses s) = []"
      by (cases "availableAgents (updateAgentStatuses s)") auto
    with False show ?thesis by simp
  qed
qed

lemma processTaskQueue_head_only:
  "taskQueue (processTaskQueue r now s) = taskQueue s
   \<or> taskQueue (processTaskQueue r now s) = tl (taskQueue s)"
  using processTaskQueue_cases [of r now s] by auto

text \<open>
  The choice among the agents listed as \<open>online\<close> does not look at capabilities.
  Right after the constructor two uploads are enqueued, so that three
  \<open>data_processing\<close> tasks are pending; the data agent is the one online agent that
  supports the type.  The first monitoring tick draws the analysis agent and takes the
  first of the three off the queue without starting it anywhere.
\<close>

lemma capability_blind_choice_loses_head:
  "reachable three_data_tasks
   \<and> map task_name (taskQueue three_data_tasks)
       = [Some ''Process Thesis Data'', Some ''Generate Visualizations'',
          Some ''Create Analysis Report'', Some ''Upload: a.csv'', Some ''Upload: b.csv'']
   \<and> map task_type (taskQueue three_data_tasks)
       = [''data_processing'', ''visualization'', ''report_generation'',
          ''data_processing'', ''data_processing'']
   \<and> online_supporting three_data_tasks ''data_processing'' = [''data'']
   \<and> map task_name (taskQueue (fire (EvTick (1/2) 2000) three_data_tasks))
       = [Some ''Generate Visualizations'', Some ''Create Analysis Report'',
          Some ''Upload: a.csv'', Some ''Upload: b.csv'']
   \<and> activeTasks (fire (EvTick (1/2) 2000) three_data_tasks) = []
   \<and> agents (fire (EvTick (1/2) 2000) three_data_tasks) = agents three_data_tasks"
proof -
  have "map task_name (taskQueue three_data_tasks)
       = [Some ''Process Thesis Data'', Some ''Generate Visualizations'',
          Some ''Create Analysis Report'', Some ''Upload: a.csv'', Some ''Upload: b.csv'']
   \<and> map task_type (taskQueue three_data_tasks)
       = [''data_processing'', ''visualization'', ''report_generation'',
          ''data_processing'', ''data_processing'']
   \<and> online_supporting three_data_tasks ''data_processing'' = [''data'']
   \<and> map task_name (taskQueue (fire (EvTick (1/2) 2000) three_data_tasks))
       = [Some ''Generate Visualizations'', Some ''Create Analysis Report'',
          Some ''Upload: a.csv'', Some ''Upload: b.csv'']
   \<and> activeTasks (fire (EvTick (1/2) 2000) three_data_tasks) = []
   \<and> agents (fire (EvTick (1/2) 2000) three_data_tasks) = agents three_data_tasks"
    by code_simp
  with reachable_three_data_tasks show ?thesis by simp
qed

text \<open>
  The periodic dispatch cycle refreshes \<open>agentStatus\<close> before it dispatches.  Let no
  agent other than \<open>aid\<close> have status \<open>online\<close>, let \<open>agentStatus\<close> list the agents
  of the registry, and let the task at the head of the queue be of a type that agent
  supports.  A periodic cycle that finds the agent \<open>online\<close> takes exactly the head off
  the queue, leaves the rest in order and starts the head on the agent, which is then no
  longer \<open>online\<close>; a periodic cycle that finds the agent not \<open>online\<close> takes nothing
  off the queue and starts nothing.
\<close>

lemma periodic_cycle_skips_busy_agent:
  assumes cons: "registry_consistent s"
    and only: "only_online s aid"
    and ag: "map_of (agents s) aid = Some a" and ne: "aid \<noteq> []"
    and q: "taskQueue s = t # rest"
    and cap: "task_type t \<in> set (capabilities a)"
    and r: "0 \<le> r" "r < 1"
  shows "(status a = ''online'' \<longrightarrow>
            taskQueue (monitoring_tick r now s) = rest
          \<and> map_of (activeTasks (monitoring_tick r now s)) (task_id t)
               = Some \<lparr>agentId = aid, task = t, startTime = now\<rparr>
          \<and> map_option currentTask (map_of (agents (monitoring_tick r now s)) aid) = Some (Some t)
          \<and> map_option status (map_of (agents (monitoring_tick r now s)) aid) \<noteq> Some ''online'')
       \<and> (status a \<noteq> ''online'' \<longrightarrow>
            taskQueue (monitoring_tick r now s) = t # rest
          \<and> activeTasks (monitoring_tick r now s) = activeTasks s
          \<and> agents (monitoring_tick r now s) = agents s)"
proof (cases "status a = ''online''")
  case False
  then have "availableAgents (updateAgentStatuses s) = []"
    using availableAgents_after_refresh [OF cons ag only] by simp
  with q have "monitoring_tick r now s = updateAgentStatuses s"
    by (simp add: monitoring_tick_def processTaskQueue_def)
  with False q show ?thesis by simp
next
  case True
  then have av: "availableAgents (updateAgentStatuses s) = [aid]"
    using availableAgents_after_refresh [OF cons ag only] by simp
  from r have fl: "\<lfloor>r\<rfloor> = 0" by linarith
  have sel: "selectBestAgent t [aid] r = Some aid"
    by (simp add: selectBestAgent_def js_index_def fl)
  from True cap have can: "canHandleTask a t" by (simp add: canHandleTask_def member_set)
  have tick: "monitoring_tick r now s =
      trackTaskProgress (task_id t) aid
        ((updateAgentStatuses s)
           \<lparr>taskQueue := rest,
            activeTasks := AList.update (task_id t) \<lparr>agentId = aid, task = t, startTime = now\<rparr> (activeTasks s),
            agents := AList.update aid (executeTask now t a) (agents s)\<rparr>)"
    using q av sel ne ag can
    by (simp add: monitoring_tick_def processTaskQueue_def assignTask_def Let_def)
  show ?thesis
    using True by (simp add: tick update_conv' executeTask_currentTask executeTask_not_online)
qed

text \<open>
  The dispatch that \<open>addTask\<close> makes does not refresh \<open>agentStatus\<close>: it reads the
  status strings the last monitoring tick or \<open>refreshDashboard\<close> wrote.
\<close>

lemma processTaskQueue_agentStatus:
  "agentStatus (processTaskQueue r now s) = agentStatus s"
  "detached (processTaskQueue r now s) = detached s"
  by (simp_all add: processTaskQueue_def Let_def split: list.splits option.splits)

lemma addTask_agentStatus:
  "agentStatus (addTask t now rnd r s) = agentStatus s"
  "detached (addTask t now rnd r s) = detached s"
  by (simp_all add: addTask_def processTaskQueue_agentStatus)

lemma addTask_on_listed_busy_agent:
  assumes q: "taskQueue s = []"
    and av: "availableAgents s = [aid]"
    and ag: "map_of (agents s) aid = Some a"
    and busy: "status a \<noteq> ''online''"
    and r: "0 \<le> r" "r < 1"
  shows "addTask t now rnd r s = s"
proof -
  from r have fl: "\<lfloor>r\<rfloor> = 0" by linarith
  have sel: "selectBestAgent t' [aid] r = Some aid" for t'
    by (simp add: selectBestAgent_def js_index_def fl)
  from busy have c: "\<not> canHandleTask a t'" for t'
    by (simp add: canHandleTask_def)
  have "assignTask aid t' now (s\<lparr>taskQueue := []\<rparr>) = s\<lparr>taskQueue := []\<rparr>" for t'
    using ag c by (simp add: assignTask_def)
  moreover have "availableAgents (s\<lparr>taskQueue := q'\<rparr>) = [aid]" for q'
    using av by (simp add: availableAgents_def)
  ultimately have "addTask t now rnd r s = s\<lparr>taskQueue := []\<rparr>"
    using sel q by (simp add: addTask_def processTaskQueue_def Let_def)
  with q show ?thesis by simp
qed

lemma addTask_nobody_listed:
  "availableAgents s = [] \<Longrightarrow>
   addTask t now rnd r s = s\<lparr>taskQueue := taskQueue s @ [t\<lparr>task_id := generateTaskId now rnd\<rparr>]\<rparr>"
  by (simp add: addTask_def processTaskQueue_def availableAgents_def split: list.splits)

lemma list_all_update_pair:
  "list_all P al \<Longrightarrow> P (k, v) \<Longrightarrow> list_all P (AList.update k v al)"
  by (induction al) auto

lemma checked_run_sound:
  "checked_run es s = Some s' \<Longrightarrow> admissible_run es s \<and> s' = run es s"
  by (induction es arbitrary: s) (auto simp: run_def split: if_splits)

lemma upload_ids:
  "generateTaskId 6150 ''0.z9y8x7w6v5u4'' = ''task_6150_z9y8x7w6v''"
  "generateTaskId 6250 ''0.m1n2b3v4c5x6'' = ''task_6250_m1n2b3v4c''"
  "generateTaskId 6350 ''0.h7j8k9l0p1o2'' = ''task_6350_h7j8k9l0p''"
  by (simp add: generateTaskId_def string_of_nat.simps digit_char_def, code_simp)+

lemma only_data_listed_checked:
  "(case checked_run (startAgentWorkflow @
          [EvResume ''visualization'' 4600, EvResume ''analysis'' 4900,
           EvWatch ''task_1000_p0o9i8u7y'' ''visualization'',
           EvWatch ''task_4100_q9w8e7r6t'' ''analysis'',
           EvResume ''visualization'' 5200, EvResume ''analysis'' 5700,
           EvResume ''visualization'' 5800,
           EvTick 0 6000,
           EvWatch ''task_1000_p0o9i8u7y'' ''visualization'',
           EvWatch ''task_4100_q9w8e7r6t'' ''analysis'']) visualization_running of
      None \<Rightarrow> False
    | Some s \<Rightarrow>
        taskQueue s = []
      \<and> agentStatus s = [(''data'', ''online''), (''analysis'', ''busy''),
                          (''visualization'', ''busy''), (''report'', ''offline'')]
      \<and> map_of (agents s) ''data'' = Some DataAgent
      \<and> map (status \<circ> snd) (agents s) = [''online'', ''busy'', ''busy'', ''offline'']
      \<and> online_supporting s ''data_processing'' = [''data'']
      \<and> map fst (activeTasks s) = [''task_1000_p0o9i8u7y'', ''task_4100_q9w8e7r6t'']
      \<and> detached s = []
      \<and> registry_consistent s
      \<and> only_online s ''data'')"
  by code_simp

lemma only_data_listed_facts:
  "reachable only_data_listed"
  "taskQueue only_data_listed = []"
  "agentStatus only_data_listed = [(''data'', ''online''), (''analysis'', ''busy''),
                                   (''visualization'', ''busy''), (''report'', ''offline'')]"
  "map_of (agents only_data_listed) ''data'' = Some DataAgent"
  "map (status \<circ> snd) (agents only_data_listed) = [''online'', ''busy'', ''busy'', ''offline'']"
  "online_supporting only_data_listed ''data_processing'' = [''data'']"
  "map fst (activeTasks only_data_listed) = [''task_1000_p0o9i8u7y'', ''task_4100_q9w8e7r6t'']"
  "detached only_data_listed = []"
  "registry_consistent only_data_listed"
  "only_online only_data_listed ''data''"
proof -
  let ?es = "startAgentWorkflow @
          [EvResume ''visualization'' 4600, EvResume ''analysis'' 4900,
           EvWatch ''task_1000_p0o9i8u7y'' ''visualization'',
           EvWatch ''task_4100_q9w8e7r6t'' ''analysis'',
           EvResume ''visualization'' 5200, EvResume ''analysis'' 5700,
           EvResume ''visualization'' 5800,
           EvTick 0 6000,
           EvWatch ''task_1000_p0o9i8u7y'' ''visualization'',
           EvWatch ''task_4100_q9w8e7r6t'' ''analysis'']"
  from only_data_listed_checked obtain s where
    c: "checked_run ?es visualization_running = Some s"
    and f: "taskQueue s = []"
      "agentStatus s = [(''data'', ''online''), (''analysis'', ''busy''),
                        (''visualization'', ''busy''), (''report'', ''offline'')]"
      "map_of (agents s) ''data'' = Some DataAgent"
      "map (status \<circ> snd) (agents s) = [''online'', ''busy'', ''busy'', ''offline'']"
      "online_supporting s ''data_processing'' = [''data'']"
      "map fst (activeTasks s) = [''task_1000_p0o9i8u7y'', ''task_4100_q9w8e7r6t'']"
      "detached s = []"
      "registry_consistent s"
      "only_online s ''data''"
    by (auto split: option.splits)
  from checked_run_sound [OF c] have a: "admissible_run ?es visualization_running"
    and s: "s = only_data_listed"
    by (simp_all add: only_data_listed_def)
  from reachable_run [OF reachable_visualization_running a] s
  show "reachable only_data_listed" by (simp add: only_data_listed_def)
  from f s show "taskQueue only_data_listed = []"
    "agentStatus only_data_listed = [(''data'', ''online''), (''analysis'', ''busy''),
                                     (''visualization'', ''busy''), (''report'', ''offline'')]"
    "map_of (agents only_data_listed) ''data'' = Some DataAgent"
    "map (status \<circ> snd) (agents only_data_listed) = [''online'', ''busy'', ''busy'', ''offline'']"
    "online_supporting only_data_listed ''data_processing'' = [''data'']"
    "map fst (activeTasks only_data_listed) = [''task_1000_p0o9i8u7y'', ''task_4100_q9w8e7r6t'']"
    "detached only_data_listed = []"
    "registry_consistent only_data_listed"
    "only_online only_data_listed ''data''"
    by simp_all
qed

lemma first_upload_facts:
  "taskQueue first_upload = []"
  "activeTasks first_upload = activeTasks only_data_listed @
     [(''task_6150_z9y8x7w6v'',
       \<lparr>agentId = ''data'', task = (upload_task ''a.csv'')\<lparr>task_id := ''task_6150_z9y8x7w6v''\<rparr>,
        startTime = 6150\<rparr>)]"
  "map_of (agents first_upload) ''data''
     = Some (executeTask 6150 ((upload_task ''a.csv'')\<lparr>task_id := ''task_6150_z9y8x7w6v''\<rparr>) DataAgent)"
  "availableAgents first_upload = [''data'']"
  "registry_consistent first_upload"
  "only_online first_upload ''data''"
proof -
  have av: "availableAgents only_data_listed = ''data'' # []"
    by (simp add: availableAgents_def only_data_listed_facts)
  have ne: "''data'' \<noteq> []" by simp
  have cap: "task_type (upload_task ''a.csv'') \<in> set (capabilities DataAgent)"
    "status DataAgent = ''online''"
    by code_simp+
  have fresh: "generateTaskId 6150 ''0.z9y8x7w6v5u4'' \<notin> fst ` set (activeTasks only_data_listed)"
    using only_data_listed_facts(7) by (simp add: upload_ids flip: set_map)
  note st = addTask_starts_on_first_listed
      [OF only_data_listed_facts(2) av ne only_data_listed_facts(4) cap fresh]
  from st show "taskQueue first_upload = []"
    "activeTasks first_upload = activeTasks only_data_listed @
     [(''task_6150_z9y8x7w6v'',
       \<lparr>agentId = ''data'', task = (upload_task ''a.csv'')\<lparr>task_id := ''task_6150_z9y8x7w6v''\<rparr>,
        startTime = 6150\<rparr>)]"
    "map_of (agents first_upload) ''data''
     = Some (executeTask 6150 ((upload_task ''a.csv'')\<lparr>task_id := ''task_6150_z9y8x7w6v''\<rparr>) DataAgent)"
    by (simp_all add: first_upload_def upload_ids)
  show "availableAgents first_upload = [''data'']"
    using av by (simp add: first_upload_def availableAgents_def addTask_agentStatus)
  from st(4) have ags: "agents first_upload = AList.update ''data''
      (executeTask 6150 ((upload_task ''a.csv'')\<lparr>task_id := ''task_6150_z9y8x7w6v''\<rparr>) DataAgent)
      (agents only_data_listed)"
    by (simp add: first_upload_def upload_ids)
  from only_data_listed_facts(4) have "''data'' \<in> fst ` set (agents only_data_listed)"
    by (metis domI dom_map_of_conv_image_fst)
  then have "map fst (agents first_upload) = map fst (agents only_data_listed)"
    by (simp add: ags update_keys)
  with only_data_listed_facts(9) show "registry_consistent first_upload"
    by (simp add: registry_consistent_def first_upload_def addTask_agentStatus)
  from only_data_listed_facts(10) show "only_online first_upload ''data''"
    by (simp add: only_online_def ags list_all_update_pair)
qed

lemma later_upload_is_lost:
  "addTask t now rnd 0 first_upload = first_upload"
proof -
  have r: "(0::real) \<le> 0" "(0::real) < 1" by simp_all
  from first_upload_facts(1,4,3) executeTask_not_online r show ?thesis
    by (rule addTask_on_listed_busy_agent)
qed

lemma refreshed_upload_stays_pending:
  "taskQueue (addTask t now rnd r (updateAgentStatuses first_upload))
     = [t\<lparr>task_id := generateTaskId now rnd\<rparr>]"
proof -
  have "availableAgents (updateAgentStatuses first_upload) = []"
    using availableAgents_after_refresh [OF first_upload_facts(5) first_upload_facts(3) first_upload_facts(6)]
    by (simp add: executeTask_not_online)
  then show ?thesis
    by (simp add: addTask_nobody_listed first_upload_facts(1))
qed

lemma three_uploads_eq: "three_uploads = first_upload"
proof -
  have e: "addTask (upload_task ''a.csv'') 6150 ''0.z9y8x7w6v5u4'' 0 only_data_listed = first_upload"
    by (simp add: first_upload_def)
  show ?thesis
    by (simp add: three_uploads_def run_def e later_upload_is_lost)
qed

lemma reachable_three_uploads: "reachable three_uploads"
proof -
  have keys: "fst ` set (activeTasks first_upload)
      = {''task_1000_p0o9i8u7y'', ''task_4100_q9w8e7r6t'', ''task_6150_z9y8x7w6v''}"
    using only_data_listed_facts(7) by (auto simp: first_upload_facts(2) simp flip: set_map)
  have a1: "admissible (EvAddTask (upload_task ''a.csv'') 6150 ''0.z9y8x7w6v5u4'' 0) only_data_listed"
    using only_data_listed_facts(2,7) by (simp add: fresh_id_def upload_ids)
  have a2: "admissible (EvAddTask (upload_task ''b.csv'') 6250 ''0.m1n2b3v4c5x6'' 0) first_upload"
    using keys by (simp add: fresh_id_def upload_ids first_upload_facts(1))
  have a3: "admissible (EvAddTask (upload_task ''c.csv'') 6350 ''0.h7j8k9l0p1o2'' 0) first_upload"
    using keys by (simp add: fresh_id_def upload_ids first_upload_facts(1))
  have r1: "reachable first_upload"
    unfolding first_upload_def by (rule reachable.step [OF only_data_listed_facts(1) a1])
  from reachable.step [OF r1 a2] have r2: "reachable first_upload"
    by (simp add: later_upload_is_lost)
  from reachable.step [OF r2 a3] show ?thesis
    by (simp add: later_upload_is_lost three_uploads_eq)
qed

text \<open>
  Claim C8 against the code.  After the constructor, two monitoring ticks and
  \<open>startAgentWorkflow\<close>, the visualization agent and the analysis agent are busy; the
  monitoring tick at 6000 lists the data agent as the only one \<open>online\<close> and leaves the
  queue empty.  Three \<open>data_processing\<close> tasks are then enqueued by three uploads, at
  6150, 6250 and 6350, before the next timer is due.  The first is started on the data
  agent, whose status becomes \<open>processing\<close>.  The dispatch of \<open>addTask\<close> reads the
  status strings of the tick at 6000, which still list the data agent as \<open>online\<close>: the
  second and the third task are taken off the queue, \<open>assignTask\<close> finds the agent not
  \<open>online\<close>, and the coordinator is as it was before they were enqueued.  They are
  neither pending nor active: the busy agent was not excluded, and the two tasks are
  never served.  Had \<open>refreshDashboard\<close> rewritten the status strings before the second
  upload, as the monitoring tick does before its dispatch, no agent would have been
  eligible and the second task would be pending.
\<close>

theorem stale_status_loses_enqueued_tasks:
  "reachable three_uploads
   \<and> taskQueue only_data_listed = []
   \<and> map (status \<circ> snd) (agents only_data_listed) = [''online'', ''busy'', ''busy'', ''offline'']
   \<and> online_supporting only_data_listed ''data_processing'' = [''data'']
   \<and> availableAgents only_data_listed = [''data'']
   \<and> map_option status (map_of (agents first_upload) ''data'') = Some ''processing''
   \<and> map_option currentTask (map_of (agents first_upload) ''data'')
        = Some (Some ((upload_task ''a.csv'')\<lparr>task_id := ''task_6150_z9y8x7w6v''\<rparr>))
   \<and> availableAgents first_upload = [''data'']
   \<and> fire (EvAddTask (upload_task ''b.csv'') 6250 ''0.m1n2b3v4c5x6'' 0) first_upload = first_upload
   \<and> fire (EvAddTask (upload_task ''c.csv'') 6350 ''0.h7j8k9l0p1o2'' 0) first_upload = first_upload
   \<and> taskQueue (run [EvRefresh, EvAddTask (upload_task ''b.csv'') 6250 ''0.m1n2b3v4c5x6'' 0] first_upload)
        = [(upload_task ''b.csv'')\<lparr>task_id := ''task_6250_m1n2b3v4c''\<rparr>]
   \<and> three_uploads = first_upload
   \<and> taskQueue three_uploads = []
   \<and> map fst (activeTasks three_uploads)
        = [''task_1000_p0o9i8u7y'', ''task_4100_q9w8e7r6t'', ''task_6150_z9y8x7w6v'']
   \<and> detached three_uploads = []"
proof -
  have av: "availableAgents only_data_listed = [''data'']"
    by (simp add: availableAgents_def only_data_listed_facts)
  have st: "status (executeTask 6150 ((upload_task ''a.csv'')\<lparr>task_id := ''task_6150_z9y8x7w6v''\<rparr>) DataAgent)
      = ''processing''"
    by code_simp
  have ag: "map_option status (map_of (agents first_upload) ''data'') = Some ''processing''"
    "map_option currentTask (map_of (agents first_upload) ''data'')
        = Some (Some ((upload_task ''a.csv'')\<lparr>task_id := ''task_6150_z9y8x7w6v''\<rparr>))"
    by (simp_all add: first_upload_facts(3) st executeTask_currentTask)
  have f: "fire (EvAddTask (upload_task ''b.csv'') 6250 ''0.m1n2b3v4c5x6'' 0) first_upload = first_upload"
    "fire (EvAddTask (upload_task ''c.csv'') 6350 ''0.h7j8k9l0p1o2'' 0) first_upload = first_upload"
    by (simp_all add: later_upload_is_lost)
  have rf: "taskQueue (run [EvRefresh, EvAddTask (upload_task ''b.csv'') 6250 ''0.m1n2b3v4c5x6'' 0] first_upload)
        = [(upload_task ''b.csv'')\<lparr>task_id := ''task_6250_m1n2b3v4c''\<rparr>]"
    by (simp add: run_def refreshed_upload_stays_pending upload_ids)
  have q: "taskQueue three_uploads = []"
    by (simp add: three_uploads_eq first_upload_facts(1))
  have k: "map fst (activeTasks three_uploads)
        = [''task_1000_p0o9i8u7y'', ''task_4100_q9w8e7r6t'', ''task_6150_z9y8x7w6v'']"
    by (simp add: three_uploads_eq first_upload_facts(2) only_data_listed_facts(7))
  have d: "detached three_uploads = []"
    by (simp add: three_uploads_eq first_upload_def addTask_agentStatus only_data_listed_facts(8))
  show ?thesis
    using reachable_three_uploads only_data_listed_facts(2,5,6) av ag first_upload_facts(4) f rf
      three_uploads_eq q k d
    by (intro conjI)
qed

section \<open>A failing execution\<close>





section \<open>The progress watcher\<close>

text \<open>
  \<open>agentStatus\<close> holds status strings, and the watcher reads \<open>.status\<close> and
  \<open>.progress\<close> of such a string: both are \<open>undefined\<close>, the test for completion is
  never true, and a tick never removes an entry of the active map, never marks a task
  and, as long as the agent and the task are known, never stops the timer.
\<close>

lemma watcher_tick_never_completes:
  "map fst (activeTasks (watcher_tick tid aid s)) = map fst (activeTasks s)
   \<and> detached (watcher_tick tid aid s) = detached s"
  by (simp add: watcher_tick_keys watcher_tick_detached)

lemma watcher_tick_keeps_running:
  assumes "map_of (agentStatus s) aid = Some st" and "st \<noteq> []"
    and "map_of (activeTasks s) tid = Some info"
  shows "watchers (watcher_tick tid aid s) = watchers s"
  using assms by (simp add: watcher_tick_def js_string_prop_def Let_def)

text \<open>
  Claim C1 against the code.  After the constructor the first monitoring tick dispatches
  the start-up \<open>data_processing\<close> task to the data agent, which executes it to its
  end; the monitoring tick after that records the agent as \<open>online\<close>.  The agent has
  progress 100 and is not busy, and the watcher of the task is alive.  Its next tick
  leaves the task in the active map, with no status, marks nothing and keeps running.
\<close>

theorem watcher_leaves_finished_task_active:
  "reachable after_one_task
   \<and> map_option status (map_of (agents after_one_task) ''data'') = Some ''online''
   \<and> map_option progress (map_of (agents after_one_task) ''data'') = Some 100
   \<and> map_of (agentStatus after_one_task) ''data'' = Some ''online''
   \<and> watchers after_one_task = [(''task_1000_k3j2h4g5f'', ''data'')]
   \<and> map fst (activeTasks (fire (EvWatch ''task_1000_k3j2h4g5f'' ''data'') after_one_task))
        = [''task_1000_k3j2h4g5f'']
   \<and> map_option (task_status \<circ> task)
        (map_of (activeTasks (fire (EvWatch ''task_1000_k3j2h4g5f'' ''data'') after_one_task))
           ''task_1000_k3j2h4g5f'') = Some None
   \<and> detached (fire (EvWatch ''task_1000_k3j2h4g5f'' ''data'') after_one_task) = []
   \<and> watchers (fire (EvWatch ''task_1000_k3j2h4g5f'' ''data'') after_one_task)
        = [(''task_1000_k3j2h4g5f'', ''data'')]"
proof -
  have "map_option status (map_of (agents finished_state) ''data'') = Some ''online''
   \<and> map_option progress (map_of (agents finished_state) ''data'') = Some 100
   \<and> map_of (agentStatus finished_state) ''data'' = Some ''online''
   \<and> watchers finished_state = [(''task_1000_k3j2h4g5f'', ''data'')]
   \<and> map fst (activeTasks (fire (EvWatch ''task_1000_k3j2h4g5f'' ''data'') finished_state))
        = [''task_1000_k3j2h4g5f'']
   \<and> map_option (task_status \<circ> task)
        (map_of (activeTasks (fire (EvWatch ''task_1000_k3j2h4g5f'' ''data'') finished_state))
           ''task_1000_k3j2h4g5f'') = Some None
   \<and> detached (fire (EvWatch ''task_1000_k3j2h4g5f'' ''data'') finished_state) = []
   \<and> watchers (fire (EvWatch ''task_1000_k3j2h4g5f'' ''data'') finished_state)
        = [(''task_1000_k3j2h4g5f'', ''data'')]"
    by code_simp
  with reachable_after_one_task show ?thesis
    by (simp only: after_one_task_eq)
qed

section \<open>Tasks per agent\<close>

text \<open>
  An agent executes one task at a time: while an \<open>executeTask\<close> is suspended the
  status of the agent is not \<open>online\<close>, so \<open>assignTask\<close> starts nothing on it.
\<close>

lemma list_all_update:
  "list_all (P \<circ> snd) al \<Longrightarrow> P v \<Longrightarrow> list_all (P \<circ> snd) (AList.update k v al)"
  by (induction al) auto

lemma map_of_list_all:
  "list_all (P \<circ> snd) al \<Longrightarrow> map_of al k = Some v \<Longrightarrow> P v"
  by (induction al) (auto split: if_splits)

lemma resume_settled: "idle_or_not_online a \<Longrightarrow> idle_or_not_online (resume now a)"
  by (auto simp: idle_or_not_online_def resume_def executeTask_completed_def executeTask_failed_def
        log_agent_def Let_def split: agent_pc.splits)

lemma handleFileUpload_settled:
  "idle_or_not_online a \<Longrightarrow> idle_or_not_online (handleFileUpload now out a)"
  by (auto simp: idle_or_not_online_def handleFileUpload_def log_agent_def split: upload_outcome.splits)

lemma executeTask_settled: "idle_or_not_online (executeTask now t a)"
  by (simp add: idle_or_not_online_def executeTask_not_online)

lemma executing_not_online_frame [simp]:
  "executing_not_online (s\<lparr>taskQueue := q\<rparr>) = executing_not_online s"
  "executing_not_online (updateAgentStatuses s) = executing_not_online s"
  "executing_not_online (watcher_tick tid aid s) = executing_not_online s"
  by (simp_all add: executing_not_online_def)

lemma executing_not_online_assignTask:
  "executing_not_online s \<Longrightarrow> executing_not_online (assignTask aid t now s)"
  by (auto simp: executing_not_online_def assignTask_def executeTask_settled list_all_update
        split: option.splits)

lemma executing_not_online_processTaskQueue:
  "executing_not_online s \<Longrightarrow> executing_not_online (processTaskQueue r now s)"
  using processTaskQueue_cases [of r now s]
  by (auto simp: executing_not_online_assignTask)

lemma executing_not_online_fire:
  assumes "executing_not_online s" shows "executing_not_online (fire e s)"
proof (cases e)
  case (EvAddTask t now rnd r)
  with assms show ?thesis by (simp add: addTask_def executing_not_online_processTaskQueue)
next
  case (EvTick r now)
  with assms show ?thesis by (simp add: monitoring_tick_def executing_not_online_processTaskQueue)
next
  case (EvResume aid now)
  show ?thesis
  proof (cases "map_of (agents s) aid")
    case None
    with assms EvResume show ?thesis by (simp add: agent_resume_def)
  next
    case (Some a)
    from assms have all: "list_all (idle_or_not_online \<circ> snd) (agents s)"
      by (simp add: executing_not_online_def)
    from map_of_list_all [OF all Some] have "idle_or_not_online (resume now a)"
      by (rule resume_settled)
    with all Some EvResume show ?thesis
      by (simp add: executing_not_online_def agent_resume_def list_all_update)
  qed
next
  case (EvWatch tid aid)
  with assms show ?thesis by simp
next
  case EvRefresh
  with assms show ?thesis by simp
next
  case (EvUpload now out)
  show ?thesis
  proof (cases "map_of (agents s) ''data''")
    case None
    with assms EvUpload show ?thesis by simp
  next
    case (Some a)
    from assms have all: "list_all (idle_or_not_online \<circ> snd) (agents s)"
      by (simp add: executing_not_online_def)
    from map_of_list_all [OF all Some] have "idle_or_not_online (handleFileUpload now out a)"
      by (rule handleFileUpload_settled)
    with all Some EvUpload show ?thesis
      by (simp add: executing_not_online_def list_all_update)
  qed
qed

lemma reachable_executing_not_online: "reachable s \<Longrightarrow> executing_not_online s"
proof (induction rule: reachable.induct)
  case init
  show ?case
    by (simp add: executing_not_online_def idle_or_not_online_def new_AgentManager_def
          DataAgent_def AnalysisAgent_def VisualizationAgent_def ReportAgent_def BaseAgent_def)
next
  case (step s e)
  then show ?case by (simp add: executing_not_online_fire)
qed

lemma executing_agent_gets_no_task:
  assumes "reachable s" and "map_of (agents s) aid = Some a" and "pc a \<noteq> Idle"
  shows "assignTask aid t now s = s"
proof -
  from assms(1) have "list_all (idle_or_not_online \<circ> snd) (agents s)"
    using reachable_executing_not_online by (simp add: executing_not_online_def)
  from map_of_list_all [OF this assms(2)] assms(3) have "\<not> canHandleTask a t"
    by (simp add: canHandleTask_def idle_or_not_online_def)
  with assms(2) show ?thesis by (simp add: assignTask_def)
qed

text \<open>
  Claim C6 against the code.  After the run above the watcher fires once more and an
  upload enqueues a second \<open>data_processing\<close> task: it is dispatched to the data agent
  at once, and the active map then has two entries owned by \<open>data\<close>, the finished
  task that the watcher never removes and the new one.
\<close>

theorem one_agent_owns_two_active_tasks:
  "reachable after_second_task
   \<and> map fst (activeTasks after_second_task) = [''task_1000_k3j2h4g5f'', ''task_6500_z9y8x7w6v'']
   \<and> map (agentId \<circ> snd) (activeTasks after_second_task) = [''data'', ''data'']
   \<and> map_option currentTask (map_of (agents after_second_task) ''data'')
        = Some (Some ((upload_task ''data.csv'')\<lparr>task_id := ''task_6500_z9y8x7w6v''\<rparr>))"
proof -
  let ?w = "watcher_tick ''task_1000_k3j2h4g5f'' ''data'' finished_state"
  have g: "generateTaskId 6500 ''0.z9y8x7w6v5u4'' = ''task_6500_z9y8x7w6v''"
    by code_simp
  note f = finished_state_facts
  have fw: "fire (EvWatch ''task_1000_k3j2h4g5f'' ''data'') after_one_task = ?w"
    by (simp add: after_one_task_eq f(7))
  have w: "taskQueue ?w = []"
    "availableAgents ?w = [''data'', ''analysis'', ''visualization'']"
    "map fst (activeTasks ?w) = [''task_1000_k3j2h4g5f'']"
    "map (agentId \<circ> snd) (activeTasks ?w) = [''data'']"
    "map_option status (map_of (agents ?w) ''data'') = Some ''online''"
    "map_option capabilities (map_of (agents ?w) ''data'')
       = Some [''data_processing'', ''data_cleaning'', ''data_validation'']"
    using f(1-6) by (simp_all add: availableAgents_def watcher_tick_keys watcher_tick_owners)
  from w(5) obtain a where a: "map_of (agents ?w) ''data'' = Some a" "status a = ''online''"
    by auto
  with w(6) have cap: "task_type (upload_task ''data.csv'') \<in> set (capabilities a)"
    by (simp add: upload_task_def)
  from w(3) have "set (map fst (activeTasks ?w)) = set [''task_1000_k3j2h4g5f'']"
    by (rule arg_cong)
  then have keys: "fst ` set (activeTasks ?w) = {''task_1000_k3j2h4g5f''}"
    by simp
  have fresh: "generateTaskId 6500 ''0.z9y8x7w6v5u4'' \<notin> fst ` set (activeTasks ?w)"
    by (simp only: keys g) simp
  have ne: "''data'' \<noteq> []" by simp
  note st = addTask_starts_on_first_listed [OF w(1) w(2) ne a(1) cap a(2) fresh]
  have "after_second_task = fire (EvAddTask (upload_task ''data.csv'') 6500 ''0.z9y8x7w6v5u4'' 0)
      (fire (EvWatch ''task_1000_k3j2h4g5f'' ''data'') after_one_task)"
    by (simp only: after_second_task_def run_def fold_simps)
  then have "after_second_task = fire (EvAddTask (upload_task ''data.csv'') 6500 ''0.z9y8x7w6v5u4'' 0) ?w"
    by (simp only: fw)
  then have s2: "after_second_task = addTask (upload_task ''data.csv'') 6500 ''0.z9y8x7w6v5u4'' 0 ?w"
    by (simp only: fire.simps)
  have "reachable (fire (EvWatch ''task_1000_k3j2h4g5f'' ''data'') after_one_task)"
    using reachable_after_one_task by (rule reachable.step) simp
  then have rw: "reachable ?w"
    by (simp only: fw)
  have "admissible (EvAddTask (upload_task ''data.csv'') 6500 ''0.z9y8x7w6v5u4'' 0) ?w"
    using w(1) fresh by (simp add: fresh_id_def)
  with rw have "reachable (fire (EvAddTask (upload_task ''data.csv'') 6500 ''0.z9y8x7w6v5u4'' 0) ?w)"
    by (rule reachable.step)
  then have r: "reachable after_second_task"
    by (simp add: s2)
  have k: "map fst (activeTasks after_second_task) = [''task_1000_k3j2h4g5f'', ''task_6500_z9y8x7w6v'']"
    unfolding s2 st(2) using w(3) by (simp add: g)
  have o: "map (agentId \<circ> snd) (activeTasks after_second_task) = [''data'', ''data'']"
    unfolding s2 st(2) using w(4) by simp
  have c: "map_option currentTask (map_of (agents after_second_task) ''data'')
        = Some (Some ((upload_task ''data.csv'')\<lparr>task_id := ''task_6500_z9y8x7w6v''\<rparr>))"
    unfolding s2 st(3) by (simp add: executeTask_currentTask g)
  from r k o c show ?thesis by (intro conjI)
qed

section \<open>The status poll\<close>

lemma renderAnalysisTaskList_twice:
  "renderAnalysisTaskList td (renderAnalysisTaskList td d) = renderAnalysisTaskList td d"
  by (simp add: renderAnalysisTaskList_def split: option.splits)

lemma renderAnalysisLogs_twice:
  "renderAnalysisLogs f ls (renderAnalysisLogs f ls d) = renderAnalysisLogs f ls d"
  by (simp add: renderAnalysisLogs_def split: option.splits)

lemma render_commute:
  "renderAnalysisTaskList td (renderAnalysisLogs f ls d) = renderAnalysisLogs f ls (renderAnalysisTaskList td d)"
  by (simp add: renderAnalysisTaskList_def renderAnalysisLogs_def split: option.splits)

text \<open>
  Claim C9.  Each of the two render functions overwrites its container with a text that
  depends on the server data only, and does nothing when the container is absent.
  Applying the step of the status poll a second time with the same data gives the
  displayed state the first application gave: no task row and no log entry is added.
\<close>

theorem status_poll_idempotent:
  "merge_status_poll f ad td (merge_status_poll f ad td d) = merge_status_poll f ad td d
   \<and> renderAnalysisTaskList td (renderAnalysisTaskList td d) = renderAnalysisTaskList td d
   \<and> renderAnalysisLogs f ls (renderAnalysisLogs f ls d) = renderAnalysisLogs f ls d"
  by (simp add: merge_status_poll_def render_commute renderAnalysisTaskList_twice
        renderAnalysisLogs_twice)

end
